theory Spec2Isabelle
  imports Main "HOL-Library.Sublist"
begin

section \<open>Data model of \<open>action.py\<close>\<close>

text \<open>
  Python \<open>bytes\<close> and \<open>str\<close> are both character lists here. A \<open>dict[str, str]\<close> is an
  association list in insertion order with unique keys, as Python keeps it.
\<close>

type_synonym bytes = string

type_synonym dict = "(string \<times> string) list"

text \<open>\<open>k in d\<close>: an exact, case-sensitive comparison of keys.\<close>

definition dict_contains :: "dict \<Rightarrow> string \<Rightarrow> bool" where
  "dict_contains d k = (k \<in> set (map fst d))"

text \<open>\<open>d[k]\<close> as a read: \<open>None\<close> stands for Python's \<open>KeyError\<close>.\<close>

definition dict_get :: "dict \<Rightarrow> string \<Rightarrow> string option" where
  "dict_get d k = map_of d k"

text \<open>\<open>d[k] = v\<close>: an existing key keeps its position, a new key goes to the end.\<close>

fun dict_set :: "dict \<Rightarrow> string \<Rightarrow> string \<Rightarrow> dict" where
  "dict_set [] k v = [(k, v)]"
| "dict_set ((k', v') # d) k v =
     (if k' = k then (k', v) # d else (k', v') # dict_set d k v)"

text \<open>\<open>{k: v for k, v in items}\<close>: a later item with the same key overwrites.\<close>

definition dict_of_items :: "(string \<times> string) list \<Rightarrow> dict" where
  "dict_of_items items = foldl (\<lambda>d (k, v). dict_set d k v) [] items"

text \<open>\<open>str(n)\<close> for an integer, as the f-strings of the error messages format it.\<close>

fun str_nat :: "nat \<Rightarrow> string" where
  "str_nat n =
     (if n < 10 then [''0123456789'' ! n]
      else str_nat (n div 10) @ [''0123456789'' ! (n mod 10)])"

declare str_nat.simps [simp del]

definition str_int :: "int \<Rightarrow> string" where
  "str_int i = (if i < 0 then CHR ''-'' # str_nat (nat (- i)) else str_nat (nat i))"

text \<open>The dataclass \<open>HttpResponse\<close>.\<close>

record HttpResponse =
  status_code :: int
  headers :: dict
  body :: bytes

text \<open>
  What a call of \<open>make_request\<close> can raise: its own \<open>HttpError(msg, status_code, body)\<close>,
  the \<open>KeyError\<close> of a failed dictionary read, or an exception of the transport that no
  \<open>except\<close> clause of the function catches and that therefore propagates as it is.
\<close>

datatype exn =
    HttpError string "int option" bytes
  | KeyError string
  | Propagated string

text \<open>
  \<open>str.capitalize()\<close> on a header name: the first character in upper case, the others in
  lower case. Header names are ASCII.
\<close>

definition lower_char :: "char \<Rightarrow> char" where
  "lower_char c =
     (case map_of (zip ''ABCDEFGHIJKLMNOPQRSTUVWXYZ'' ''abcdefghijklmnopqrstuvwxyz'') c of
        None \<Rightarrow> c
      | Some l \<Rightarrow> l)"

definition upper_char :: "char \<Rightarrow> char" where
  "upper_char c =
     (case map_of (zip ''abcdefghijklmnopqrstuvwxyz'' ''ABCDEFGHIJKLMNOPQRSTUVWXYZ'') c of
        None \<Rightarrow> c
      | Some u \<Rightarrow> u)"

fun capitalize :: "string \<Rightarrow> string" where
  "capitalize [] = []"
| "capitalize (c # cs) = upper_char c # map lower_char cs"

text \<open>
  The request object of line 80, \<open>urllib.request.Request(url, data=, headers=, method=)\<close>.
  It keeps a dictionary of its own: the constructor reads the items of the \<open>headers\<close>
  argument in order and \<open>add_header\<close> stores each value under \<open>key.capitalize()\<close>, so
  names that differ in case only are one entry, and a later value replaces an earlier
  one. The handler writes the header lines of an exchange from this dictionary. The url
  is a full url with its scheme, as the docstring of \<open>make_request\<close> asks.
\<close>

record request =
  req_url :: string
  req_data :: "bytes option"
  req_headers :: dict
  req_method :: "string option"

definition add_header :: "dict \<Rightarrow> string \<Rightarrow> string \<Rightarrow> dict" where
  "add_header hs key val = dict_set hs (capitalize key) val"

definition Request :: "string \<Rightarrow> bytes option \<Rightarrow> dict \<Rightarrow> string option \<Rightarrow> request" where
  "Request u d h m =
     \<lparr>req_url = u, req_data = d,
      req_headers = foldl (\<lambda>hs (k, v). add_header hs k v) [] h,
      req_method = m\<rparr>"

text \<open>The two SSL contexts of lines 73 to 78.\<close>

datatype ssl_context = SSLv23_without_DH | Default_context

definition make_ssl_context :: "bool \<Rightarrow> ssl_context" where
  "make_ssl_context ssl_compat_mode =
     (if ssl_compat_mode then SSLv23_without_DH else Default_context)"

text \<open>
  One physical exchange, \<open>opener.open(request)\<close> with the reads that follow it, ends in
  one of three ways: a response object (\<open>_r.status\<close>, \<open>_r.headers.items()\<close>,
  \<open>_r.read()\<close>), a \<open>urllib.error.HTTPError\<close> (\<open>e.status\<close>, \<open>str(e)\<close>, \<open>e.read()\<close>), or
  any other exception (\<open>URLError\<close> for a refused connection or a failed TLS handshake,
  for instance), which is not an \<open>HTTPError\<close>.
\<close>

datatype outcome =
    Returned int "(string \<times> string) list" bytes
  | Raised_HTTPError "int option" string bytes
  | Raised_other string

text \<open>
  The network is outside the program: a transport is a parameter, a function of the
  state of the world, the SSL context of the opener and the request. It stands for one
  call of \<open>opener.open\<close> with the reads that follow it. The opener of lines 87 to 89 is
  the one of \<open>build_opener\<close> with its default handlers: it hands back a response only
  when the status is in [200, 300); a redirect it follows itself, inside the call, and
  a status that is left it raises as an \<open>HTTPError\<close>. \<open>returns_2xx_only\<close> says this of
  a transport; the theorems that hold of every transport do not assume it.
\<close>

type_synonym 'w transport = "'w \<Rightarrow> ssl_context \<Rightarrow> request \<Rightarrow> outcome \<times> 'w"

definition returns_2xx_only :: "'w transport \<Rightarrow> bool" where
  "returns_2xx_only tr =
     (\<forall>w ctx rq st hs b. fst (tr w ctx rq) = Returned st hs b \<longrightarrow> 200 \<le> st \<and> st < 300)"

text \<open>What a run does that can be observed: exchanges and \<open>sleep(seconds)\<close>.\<close>

datatype event =
    Dispatch ssl_context request outcome
  | Sleep int

text \<open>
  Dictionaries are objects: \<open>heap\<close> maps a reference to the contents of the dictionary
  it points to, \<open>next_ref\<close> is the next unused reference. \<open>trace\<close> lists the events so
  far, oldest first.
\<close>

type_synonym ref = nat

record 'w state =
  heap :: "ref \<Rightarrow> dict"
  next_ref :: ref
  world :: 'w
  trace :: "event list"

section \<open>\<open>make_request\<close>\<close>

definition default_num_retries :: int where
  "default_num_retries = 3"

definition default_ssl_compat_mode :: bool where
  "default_ssl_compat_mode = False"

text \<open>
  Lines 67 to 71: a missing \<open>headers\<close> argument becomes a new empty dictionary, and the
  dictionary, the caller's own when one was passed, gets the key \<open>Content-Type\<close> when it
  does not have it.
\<close>

definition init_headers :: "ref option \<Rightarrow> 'w state \<Rightarrow> ref \<times> 'w state" where
  "init_headers hdrs s =
     (let (h, s1) =
            (case hdrs of
               None \<Rightarrow> (next_ref s, s\<lparr>heap := (heap s)(next_ref s := []),
                                      next_ref := Suc (next_ref s)\<rparr>)
             | Some r \<Rightarrow> (r, s))
      in if \<not> dict_contains (heap s1 h) ''Content-Type''
         then (h, s1\<lparr>heap := (heap s1)
                 (h := dict_set (heap s1 h) ''Content-Type'' ''application/json; charset=utf8'')\<rparr>)
         else (h, s1))"

text \<open>
  Lines 91 to 143, the \<open>while True\<close> loop up to the point where \<open>response\<close> is bound:
  the result is the response, or the exception that leaves the function. The argument
  \<open>retry_count\<close> is the value of the variable at the start of a turn, and
  \<open>retry_count + 1\<close> its value after line 112; it is at least 1 there, so \<open>2**retry_count\<close>
  is an integer.
\<close>

function request_loop ::
  "'w transport \<Rightarrow> ssl_context \<Rightarrow> request \<Rightarrow> string \<Rightarrow> int \<Rightarrow> int \<Rightarrow> 'w state
     \<Rightarrow> (exn + HttpResponse) \<times> 'w state" where
  "request_loop tr ctx rq url num_retries retry_count s =
     (let out = fst (tr (world s) ctx rq);
          s' = s\<lparr>world := snd (tr (world s) ctx rq),
                 trace := trace s @ [Dispatch ctx rq out]\<rparr>
      in case out of
           Returned st hs b \<Rightarrow>
             (Inr \<lparr>status_code = st, headers = dict_of_items hs, body = b\<rparr>, s')
         | Raised_other x \<Rightarrow> (Inl (Propagated x), s')
         | Raised_HTTPError status e_str e_body \<Rightarrow>
             (case status of
                None \<Rightarrow> (Inl (HttpError (''Unknown HTTP error: '' @ e_str) None e_body), s')
              | Some st \<Rightarrow>
                  if st = 429 \<or> (st \<ge> 500 \<and> st < 600) then
                    if retry_count + 1 > num_retries
                    then (Inl (HttpError ''Retries Exceeded'' (Some st) e_body), s')
                    else request_loop tr ctx rq url num_retries (retry_count + 1)
                           (s'\<lparr>trace := trace s' @ [Sleep (2 ^ nat (retry_count + 1) * 60)]\<rparr>)
                  else if st \<ge> 400 \<and> st < 500 then
                    (Inl (HttpError
                            (if st = 404 then ''HTTP Error '' @ str_int st @ '' '' @ url
                             else ''HTTP Error '' @ str_int st)
                            (Some st) e_body), s')
                  else
                    (Inl (HttpError (''Unknown HTTP Error '' @ str_int st) (Some st) e_body), s')))"
  by pat_completeness auto

termination
  by (relation "measure (\<lambda>(tr, ctx, rq, url, num_retries, retry_count, s).
                   nat (num_retries - retry_count))") auto

declare request_loop.simps [simp del]

text \<open>
  The whole function. Lines 144 to 152: a response with a status in [300, 400) makes the
  function call itself with the \<open>Location\<close> header as the url and with \<open>data\<close>, the same
  \<open>headers\<close> object and \<open>method\<close>; \<open>num_retries\<close> and \<open>ssl_compat_mode\<close> are not passed
  and take their defaults. The source puts no bound on this recursion, so a run that
  never returns is the value \<open>None\<close>. A transport that returns 2xx responses only never
  leads to the recursive call.
\<close>

partial_function (option) make_request ::
  "'w transport \<Rightarrow> string \<Rightarrow> bytes option \<Rightarrow> ref option \<Rightarrow> string option \<Rightarrow> int \<Rightarrow> bool
     \<Rightarrow> 'w state \<Rightarrow> ((exn + HttpResponse) \<times> 'w state) option" where
  "make_request tr url data hdrs method num_retries ssl_compat_mode s =
     (let (h, s1) = init_headers hdrs s;
          ssl_context = make_ssl_context ssl_compat_mode;
          request = Request url data (heap s1 h) method;
          (r, s2) = request_loop tr ssl_context request url num_retries 0 s1
      in case r of
           Inl e \<Rightarrow> Some (Inl e, s2)
         | Inr response \<Rightarrow>
             if status_code response \<ge> 300 \<and> status_code response < 400 then
               (case dict_get (headers response) ''Location'' of
                  None \<Rightarrow> Some (Inl (KeyError ''Location''), s2)
                | Some location \<Rightarrow>
                    make_request tr location data (Some h) method
                      default_num_retries default_ssl_compat_mode s2)
             else Some (Inr response, s2))"

declare make_request.simps [code]

text \<open>
  The request object that a call builds on line 80, and the events that a run added to
  the trace.
\<close>

definition first_request ::
  "string \<Rightarrow> bytes option \<Rightarrow> ref option \<Rightarrow> string option \<Rightarrow> 'w state \<Rightarrow> request" where
  "first_request url data hdrs method s =
     (let (h, s1) = init_headers hdrs s in Request url data (heap s1 h) method)"

text \<open>
  One call without its recursive call: the loop as the call runs it. \<open>location_of\<close> is
  the url of the recursive call when lines 144 to 151 make one, \<open>final_result\<close> is what
  the call returns or raises when they make none.
\<close>

definition hop ::
  "'w transport \<Rightarrow> string \<Rightarrow> bytes option \<Rightarrow> ref option \<Rightarrow> string option \<Rightarrow> int \<Rightarrow> bool
     \<Rightarrow> 'w state \<Rightarrow> (exn + HttpResponse) \<times> 'w state" where
  "hop tr url data hdrs method num_retries ssl_compat_mode s =
     request_loop tr (make_ssl_context ssl_compat_mode) (first_request url data hdrs method s)
       url num_retries 0 (snd (init_headers hdrs s))"

definition location_of :: "exn + HttpResponse \<Rightarrow> string option" where
  "location_of r =
     (case r of
        Inl e \<Rightarrow> None
      | Inr response \<Rightarrow>
          if status_code response \<ge> 300 \<and> status_code response < 400
          then dict_get (headers response) ''Location'' else None)"

definition final_result :: "exn + HttpResponse \<Rightarrow> exn + HttpResponse" where
  "final_result r =
     (case r of
        Inl e \<Rightarrow> Inl e
      | Inr response \<Rightarrow>
          if status_code response \<ge> 300 \<and> status_code response < 400
          then Inl (KeyError ''Location'') else Inr response)"

text \<open>
  The condition of line 110, and the parts of one turn of the loop: the state after the
  exchange, whether the turn ends at \<open>continue\<close>, and the state after the sleep of
  line 122.
\<close>

definition retryable :: "int \<Rightarrow> bool" where
  "retryable st = (st = 429 \<or> (st \<ge> 500 \<and> st < 600))"

definition after_exchange :: "'w transport \<Rightarrow> ssl_context \<Rightarrow> request \<Rightarrow> 'w state \<Rightarrow> 'w state" where
  "after_exchange tr ctx rq s =
     s\<lparr>world := snd (tr (world s) ctx rq),
       trace := trace s @ [Dispatch ctx rq (fst (tr (world s) ctx rq))]\<rparr>"

definition retries :: "'w transport \<Rightarrow> ssl_context \<Rightarrow> request \<Rightarrow> int \<Rightarrow> int \<Rightarrow> 'w state \<Rightarrow> bool" where
  "retries tr ctx rq num_retries retry_count s =
     (case fst (tr (world s) ctx rq) of
        Raised_HTTPError (Some st) e_str e_body \<Rightarrow>
          retryable st \<and> \<not> retry_count + 1 > num_retries
      | _ \<Rightarrow> False)"

definition after_sleep :: "int \<Rightarrow> 'w state \<Rightarrow> 'w state" where
  "after_sleep retry_count s =
     s\<lparr>trace := trace s @ [Sleep (2 ^ nat (retry_count + 1) * 60)]\<rparr>"

definition new_events :: "'w state \<Rightarrow> 'w state \<Rightarrow> event list" where
  "new_events s s' = drop (length (trace s)) (trace s')"

fun is_Dispatch :: "event \<Rightarrow> bool" where
  "is_Dispatch (Dispatch ctx rq out) = True"
| "is_Dispatch (Sleep t) = False"

definition attempts :: "event list \<Rightarrow> nat" where
  "attempts evs = length (filter is_Dispatch evs)"

definition sleeps :: "event list \<Rightarrow> int list" where
  "sleeps evs = concat (map (\<lambda>e. case e of Sleep t \<Rightarrow> [t] | Dispatch ctx rq out \<Rightarrow> []) evs)"

definition sent :: "event list \<Rightarrow> (ssl_context \<times> request) list" where
  "sent evs = concat (map (\<lambda>e. case e of Sleep t \<Rightarrow> [] | Dispatch ctx rq out \<Rightarrow> [(ctx, rq)]) evs)"

section \<open>Transports and states for concrete runs\<close>

text \<open>
  A server that answers from a script, one outcome for each exchange, and a server that
  gives the same outcome to every exchange.
\<close>

definition scripted :: "outcome list transport" where
  "scripted w ctx rq =
     (case w of [] \<Rightarrow> (Raised_other ''script exhausted'', []) | out # rest \<Rightarrow> (out, rest))"

definition always :: "outcome \<Rightarrow> unit transport" where
  "always out w ctx rq = (out, w)"

text \<open>A start state with no dictionary allocated and an empty trace.\<close>

definition initial :: "'w \<Rightarrow> 'w state" where
  "initial w = \<lparr>heap = (\<lambda>r. []), next_ref = 0, world = w, trace = []\<rparr>"

text \<open>A start state in which the caller owns one dictionary, at reference 0.\<close>

definition with_headers :: "dict \<Rightarrow> 'w \<Rightarrow> 'w state" where
  "with_headers d w = \<lparr>heap = (\<lambda>r. if r = 0 then d else []), next_ref = 1, world = w, trace = []\<rparr>"

text \<open>
  What a finished run returned or raised, the events it left in the trace, and the
  contents it left in a dictionary.
\<close>

definition result_of ::
  "((exn + HttpResponse) \<times> 'w state) option \<Rightarrow> (exn + HttpResponse) option" where
  "result_of run = map_option fst run"

definition events_of :: "((exn + HttpResponse) \<times> 'w state) option \<Rightarrow> event list option" where
  "events_of run = map_option (\<lambda>(r, s). trace s) run"

definition heap_of :: "((exn + HttpResponse) \<times> 'w state) option \<Rightarrow> ref \<Rightarrow> dict option" where
  "heap_of run r = map_option (\<lambda>(res, s). heap s r) run"

fun is_HttpError :: "exn \<Rightarrow> bool" where
  "is_HttpError (HttpError msg st b) = True"
| "is_HttpError (KeyError k) = False"
| "is_HttpError (Propagated x) = False"

text \<open>An \<open>HTTPError\<close> that line 110 sends to the retry branch.\<close>

fun retryable_error :: "outcome \<Rightarrow> bool" where
  "retryable_error (Raised_HTTPError (Some st) e_str e_body) = retryable st"
| "retryable_error (Raised_HTTPError None e_str e_body) = False"
| "retryable_error (Returned st hs b) = False"
| "retryable_error (Raised_other x) = False"

text \<open>
  The trace that the spec expects of a retry sequence: each failed exchange is followed by
  a sleep of \<open>2 ^ k\<close> minutes, \<open>k\<close> counting the retries from 1; \<open>sleep\<close> takes seconds.
\<close>

fun backoff_trace :: "ssl_context \<Rightarrow> request \<Rightarrow> nat \<Rightarrow> outcome list \<Rightarrow> event list" where
  "backoff_trace ctx rq k [] = []"
| "backoff_trace ctx rq k (out # outs) =
     Dispatch ctx rq out # Sleep (2 ^ k * 60) # backoff_trace ctx rq (Suc k) outs"

text \<open>
  The spec's reading of header names, case-insensitive as in HTTP: two names are the same
  when they agree after ASCII letters are lowered, and a dictionary has a header when one
  of its keys is the same name.
\<close>

definition same_header_name :: "string \<Rightarrow> string \<Rightarrow> bool" where
  "same_header_name a b = (map lower_char a = map lower_char b)"

definition has_header :: "dict \<Rightarrow> string \<Rightarrow> bool" where
  "has_header d k = list_ex (\<lambda>(k', v). same_header_name k' k) d"

text \<open>
  The Content-Type of a request: the value that the request object holds under the
  capitalized name, from which the handler writes the one \<open>Content-Type\<close> line.
\<close>

definition content_type :: "request \<Rightarrow> string option" where
  "content_type rq = dict_get (req_headers rq) ''Content-type''"

text \<open>
  A request sent again and again, as the loop sends it: the outcomes of the first \<open>m\<close>
  exchanges from a world \<open>w\<close>, the world after them, and the outcome of the next one.
\<close>

fun outcomes :: "'w transport \<Rightarrow> ssl_context \<Rightarrow> request \<Rightarrow> 'w \<Rightarrow> nat \<Rightarrow> outcome list" where
  "outcomes tr ctx rq w 0 = []"
| "outcomes tr ctx rq w (Suc m) = fst (tr w ctx rq) # outcomes tr ctx rq (snd (tr w ctx rq)) m"

fun world_after :: "'w transport \<Rightarrow> ssl_context \<Rightarrow> request \<Rightarrow> 'w \<Rightarrow> nat \<Rightarrow> 'w" where
  "world_after tr ctx rq w 0 = w"
| "world_after tr ctx rq w (Suc m) = world_after tr ctx rq (snd (tr w ctx rq)) m"

definition outcome_at :: "'w transport \<Rightarrow> ssl_context \<Rightarrow> request \<Rightarrow> 'w \<Rightarrow> nat \<Rightarrow> outcome" where
  "outcome_at tr ctx rq w m = fst (tr (world_after tr ctx rq w m) ctx rq)"

text \<open>
  What the loop leaves with when it ends at an outcome: the response of lines 95 to 99,
  the \<open>HttpError\<close> of lines 104 to 108, 114 to 118, 130 to 134 or 138 to 142, or the
  exception that no clause catches. An outcome with a retryable status ends the loop only
  when the budget is used up.
\<close>

definition exit_value :: "string \<Rightarrow> outcome \<Rightarrow> exn + HttpResponse" where
  "exit_value url out =
     (case out of
        Returned st hs b \<Rightarrow> Inr \<lparr>status_code = st, headers = dict_of_items hs, body = b\<rparr>
      | Raised_other x \<Rightarrow> Inl (Propagated x)
      | Raised_HTTPError None e_str e_body \<Rightarrow>
          Inl (HttpError (''Unknown HTTP error: '' @ e_str) None e_body)
      | Raised_HTTPError (Some st) e_str e_body \<Rightarrow>
          if retryable st then Inl (HttpError ''Retries Exceeded'' (Some st) e_body)
          else if 400 \<le> st \<and> st < 500
          then Inl (HttpError (if st = 404 then ''HTTP Error '' @ str_int st @ '' '' @ url
                               else ''HTTP Error '' @ str_int st) (Some st) e_body)
          else Inl (HttpError (''Unknown HTTP Error '' @ str_int st) (Some st) e_body))"

text \<open>A server whose answer to the \<open>k\<close>-th exchange is \<open>f k\<close>.\<close>

definition counting :: "(nat \<Rightarrow> outcome) \<Rightarrow> nat transport" where
  "counting f w ctx rq = (f w, Suc w)"

text \<open>
  The opener of lines 87 to 89, \<open>build_opener(HTTPSHandler(context=ssl_context))\<close>, as
  \<open>urllib.request\<close> of Python 3.12 defines \<open>OpenerDirector.open\<close> with the handlers that
  \<open>build_opener\<close> installs. A server answers a request with a status, a reason phrase,
  header lines and a body, or cannot be reached; it has a state of its own, and it sees
  the SSL context of the handler and the request object.
\<close>

datatype reply =
    Reply int string "(string \<times> string) list" bytes
  | Unreachable string

type_synonym 'v server = "'v \<Rightarrow> ssl_context \<Rightarrow> request \<Rightarrow> reply \<times> 'v"

text \<open>
  \<open>Request.get_method\<close>: the method given to the constructor when it is not empty,
  otherwise \<open>POST\<close> for a request with a body and \<open>GET\<close> for one without.
\<close>

definition get_method :: "request \<Rightarrow> string" where
  "get_method rq =
     (let default_method = (if req_data rq \<noteq> None then ''POST'' else ''GET'')
      in case req_method rq of
           None \<Rightarrow> default_method
         | Some m \<Rightarrow> if m = [] then default_method else m)"

text \<open>
  The header lines of a response are a message object: a name is looked up without
  regard to case, and the first line of the name counts.
\<close>

definition message_get :: "(string \<times> string) list \<Rightarrow> string \<Rightarrow> string option" where
  "message_get hs name =
     map_option snd (find (\<lambda>(k, v). map lower_char k = map lower_char name) hs)"

text \<open>
  \<open>HTTPRedirectHandler\<close>. \<open>http_error_302\<close>, which also serves 301, 303, 307 and 308,
  takes the new url from the \<open>Location\<close> line, or the \<open>URI\<close> line when there is none.
  \<open>redirect_request\<close> allows the redirect of a \<open>GET\<close> or \<open>HEAD\<close>, and of a \<open>POST\<close> answered
  301, 302 or 303, and builds the request of the hop: a new request object for the new
  url, without body and without method, with the headers of the old request object
  except \<open>Content-Length\<close> and \<open>Content-Type\<close>. The urls of \<open>Location\<close> lines are taken to
  be full \<open>http\<close> or \<open>https\<close> urls in the form that \<open>urlparse\<close>, \<open>quote\<close> and \<open>urljoin\<close> leave
  as they are.
\<close>

definition redirect_url :: "(string \<times> string) list \<Rightarrow> string option" where
  "redirect_url hs =
     (case message_get hs ''location'' of
        Some newurl \<Rightarrow> Some newurl
      | None \<Rightarrow> message_get hs ''uri'')"

definition redirect_allowed :: "int \<Rightarrow> string \<Rightarrow> bool" where
  "redirect_allowed code m =
     (code \<in> set [301, 302, 303, 307, 308] \<and> m \<in> set [''GET'', ''HEAD'']
      \<or> code \<in> set [301, 302, 303] \<and> m = ''POST'')"

definition redirect_request :: "request \<Rightarrow> string \<Rightarrow> request" where
  "redirect_request rq newurl =
     Request newurl None
       (filter (\<lambda>(k, v). map lower_char k \<notin> set [''content-length'', ''content-type''])
          (req_headers rq))
       None"

text \<open>
  The loop detection of \<open>http_error_302\<close>. The dictionary \<open>redirect_dict\<close> counts the
  redirects to each url; the first redirect of a request object creates it, every request
  of a chain shares it, and it stays with the request object of line 80 from one turn of
  the retry loop to the next. A request object without the dictionary passes the test as
  one with an empty dictionary does.
\<close>

type_synonym visited = "(string \<times> nat) list"

fun seen :: "visited \<Rightarrow> string \<Rightarrow> nat" where
  "seen [] u = 0"
| "seen ((k, c) # vs) u = (if k = u then c else seen vs u)"

fun bump :: "visited \<Rightarrow> string \<Rightarrow> visited" where
  "bump [] u = [(u, 1)]"
| "bump ((k, c) # vs) u = (if k = u then (k, c + 1) # vs else (k, c) # bump vs u)"

definition max_repeats :: nat where
  "max_repeats = 4"

definition max_redirections :: nat where
  "max_redirections = 10"

definition inf_msg :: string where
  "inf_msg = ''The HTTP server returned a redirect error that would lead to an infinite loop. The last 30x error message was: ''"

text \<open>\<open>str(e)\<close> of the \<open>HTTPError\<close> that the opener raises for a status and a reason.\<close>

definition http_error_str :: "int \<Rightarrow> string \<Rightarrow> string" where
  "http_error_str code msg = ''HTTP Error '' @ str_int code @ '': '' @ msg"

text \<open>
  \<open>opener.open(request)\<close>. \<open>HTTPErrorProcessor\<close> hands every response whose status is
  outside 200 to 299 to the error handlers: \<open>http_error_302\<close> for the five redirect
  statuses, which opens the request of the hop with this same opener or raises, and
  \<open>http_error_default\<close> for every other status and for a redirect without a new url,
  which raises an \<open>HTTPError\<close> with the status, the reason and the body of the response.
  A server that cannot be reached is a \<open>URLError\<close>, which is not an \<open>HTTPError\<close>. The
  world of this transport is the state of the server and the \<open>redirect_dict\<close> of the
  request object.
\<close>

function urlopen ::
  "'v server \<Rightarrow> 'v \<times> visited \<Rightarrow> ssl_context \<Rightarrow> request \<Rightarrow> outcome \<times> ('v \<times> visited)" where
  "urlopen srv (v, visited) ctx rq =
     (case srv v ctx rq of
        (Unreachable x, v') \<Rightarrow> (Raised_other x, (v', visited))
      | (Reply code msg hs b, v') \<Rightarrow>
          if 200 \<le> code \<and> code < 300 then (Returned code hs b, (v', visited))
          else if code \<in> set [301, 302, 303, 307, 308] then
            (case redirect_url hs of
               None \<Rightarrow> (Raised_HTTPError (Some code) (http_error_str code msg) b, (v', visited))
             | Some newurl \<Rightarrow>
                 if \<not> redirect_allowed code (get_method rq)
                 then (Raised_HTTPError (Some code) (http_error_str code msg) b, (v', visited))
                 else if seen visited newurl \<ge> max_repeats \<or> length visited \<ge> max_redirections
                 then (Raised_HTTPError (Some code) (http_error_str code (inf_msg @ msg)) b,
                       (v', visited))
                 else urlopen srv (v', bump visited newurl) ctx (redirect_request rq newurl))
          else (Raised_HTTPError (Some code) (http_error_str code msg) b, (v', visited)))"
  by pat_completeness auto

termination urlopen
proof (relation "measure (\<lambda>(srv, (v, visited), ctx, rq).
          4 * (10 - length visited) + sum_list (map (\<lambda>(u, c). 4 - c) visited))")
  show "wf (measure (\<lambda>(srv :: 'a server, (v, visited), ctx :: ssl_context, rq :: request).
          4 * (10 - length visited) + sum_list (map (\<lambda>(u, c). 4 - c) visited)))"
    by simp
next
  fix srv :: "'a server" and v :: 'a and visited :: visited and ctx :: ssl_context
    and rq :: request and newurl :: string and v' :: 'a
  assume "\<not> (max_repeats \<le> seen visited newurl \<or> max_redirections \<le> length visited)"
  then have s: "seen visited newurl < 4" and l: "length visited < 10"
    by (simp_all add: max_repeats_def max_redirections_def)
  have step: "length (bump vs newurl) = length vs
            \<and> sum_list (map (\<lambda>(u, c). 4 - c) (bump vs newurl)) + 1
                = sum_list (map (\<lambda>(u, c). 4 - c) vs)
          \<or> length (bump vs newurl) = Suc (length vs)
            \<and> sum_list (map (\<lambda>(u, c). 4 - c) (bump vs newurl))
                = sum_list (map (\<lambda>(u, c). 4 - c) vs) + 3"
    if "seen vs newurl < 4" for vs
    using that
  proof (induction vs)
    case Nil
    show ?case by simp
  next
    case (Cons kc vs)
    obtain k c where kc: "kc = (k, c)"
      by (cases kc)
    show ?case
    proof (cases "k = newurl")
      case True
      with Cons.prems have "c < 4"
        by (simp add: kc)
      then have "4 - (c + 1) + 1 = 4 - c"
        by arith
      with True show ?thesis
        by (simp add: kc)
    next
      case False
      with Cons.prems have "seen vs newurl < 4"
        by (simp add: kc)
      from Cons.IH [OF this] False show ?thesis
        by (auto simp: kc)
    qed
  qed
  from step [OF s] l
  show "((srv, (v', bump visited newurl), ctx, redirect_request rq newurl),
           (srv, (v, visited), ctx, rq))
          \<in> measure (\<lambda>(srv, (v, visited), ctx, rq).
               4 * (10 - length visited) + sum_list (map (\<lambda>(u, c). 4 - c) visited))"
    by auto
qed

text \<open>
  A server that keeps the list of the requests it has received, each with the SSL
  context it came over, and answers a request from the number of requests before it and
  the request itself.
\<close>

definition site :: "(nat \<Rightarrow> request \<Rightarrow> reply) \<Rightarrow> (ssl_context \<times> request) list server" where
  "site f received ctx rq = (f (length received) rq, received @ [(ctx, rq)])"

text \<open>
  The start states of a call to a site that has received nothing yet: no dictionary
  allocated, or the caller's one dictionary at reference 0.
\<close>

definition unvisited :: "((ssl_context \<times> request) list \<times> visited) state" where
  "unvisited = initial ([], [])"

definition unvisited_with_headers ::
  "dict \<Rightarrow> ((ssl_context \<times> request) list \<times> visited) state" where
  "unvisited_with_headers d = with_headers d ([], [])"

text \<open>The world that a finished run left: here, what the server received.\<close>

definition world_of :: "((exn + HttpResponse) \<times> 'w state) option \<Rightarrow> 'w option" where
  "world_of run = map_option (\<lambda>(res, s). world s) run"

section \<open>The loop, one turn at a time\<close>

lemma init_headers_world [simp]: "world (snd (init_headers hdrs s)) = world s"
  by (simp add: init_headers_def Let_def split: option.splits)

lemma init_headers_trace [simp]: "trace (snd (init_headers hdrs s)) = trace s"
  by (simp add: init_headers_def Let_def split: option.splits)

lemma loop_continue:
  "retries tr ctx rq n rc s \<Longrightarrow>
   request_loop tr ctx rq url n rc s =
     request_loop tr ctx rq url n (rc + 1) (after_sleep rc (after_exchange tr ctx rq s))"
  by (subst request_loop.simps)
     (auto simp: retries_def retryable_def after_sleep_def after_exchange_def Let_def
           split: outcome.splits option.splits)

lemma loop_leave:
  "\<not> retries tr ctx rq n rc s \<Longrightarrow>
   snd (request_loop tr ctx rq url n rc s) = after_exchange tr ctx rq s"
  by (subst request_loop.simps)
     (auto simp: retries_def retryable_def after_exchange_def Let_def
           split: outcome.splits option.splits)

lemma loop_induct [case_names turn]:
  assumes "\<And>rc s. (retries tr ctx rq n rc s \<Longrightarrow>
                       P (rc + 1) (after_sleep rc (after_exchange tr ctx rq s))) \<Longrightarrow> P rc s"
  shows "P rc s"
proof (induction "nat (n - rc)" arbitrary: rc s rule: less_induct)
  case less
  show ?case
    apply (rule assms)
    apply (rule less)
    apply (auto simp: retries_def split: outcome.splits option.splits)
    done
qed

lemma loop_heap [simp]: "heap (snd (request_loop tr ctx rq url n rc s)) = heap s"
proof (induction rc s rule: loop_induct [where tr = tr and ctx = ctx and rq = rq and n = n])
  case (turn rc s)
  show ?case
  proof (cases "retries tr ctx rq n rc s")
    case True
    with turn show ?thesis
      by (simp add: loop_continue after_sleep_def after_exchange_def)
  next
    case False
    then show ?thesis
      by (simp add: loop_leave after_exchange_def)
  qed
qed

lemma loop_next_ref [simp]: "next_ref (snd (request_loop tr ctx rq url n rc s)) = next_ref s"
proof (induction rc s rule: loop_induct [where tr = tr and ctx = ctx and rq = rq and n = n])
  case (turn rc s)
  show ?case
  proof (cases "retries tr ctx rq n rc s")
    case True
    with turn show ?thesis
      by (simp add: loop_continue after_sleep_def after_exchange_def)
  next
    case False
    then show ?thesis
      by (simp add: loop_leave after_exchange_def)
  qed
qed

lemma loop_trace_grows:
  "\<exists>evs. trace (snd (request_loop tr ctx rq url n rc s)) = trace s @ evs"
proof (induction rc s rule: loop_induct [where tr = tr and ctx = ctx and rq = rq and n = n])
  case (turn rc s)
  show ?case
  proof (cases "retries tr ctx rq n rc s")
    case True
    with turn show ?thesis
      by (auto simp: loop_continue after_sleep_def after_exchange_def)
  next
    case False
    then show ?thesis
      by (simp add: loop_leave after_exchange_def)
  qed
qed

lemma new_events_append [simp]: "trace s' = trace s @ evs \<Longrightarrow> new_events s s' = evs"
  by (simp add: new_events_def)

lemma loop_events_continue:
  assumes "retries tr ctx rq n rc s"
  shows "new_events s (snd (request_loop tr ctx rq url n rc s)) =
           Dispatch ctx rq (fst (tr (world s) ctx rq)) # Sleep (2 ^ nat (rc + 1) * 60) #
           new_events (after_sleep rc (after_exchange tr ctx rq s))
             (snd (request_loop tr ctx rq url n (rc + 1)
                    (after_sleep rc (after_exchange tr ctx rq s))))"
proof -
  let ?s1 = "after_sleep rc (after_exchange tr ctx rq s)"
  obtain evs where "trace (snd (request_loop tr ctx rq url n (rc + 1) ?s1)) = trace ?s1 @ evs"
    using loop_trace_grows by blast
  then show ?thesis
    using assms by (simp add: loop_continue new_events_def after_sleep_def after_exchange_def)
qed

lemma loop_events_leave:
  assumes "\<not> retries tr ctx rq n rc s"
  shows "new_events s (snd (request_loop tr ctx rq url n rc s)) =
           [Dispatch ctx rq (fst (tr (world s) ctx rq))]"
  using assms by (simp add: loop_leave new_events_def after_exchange_def)

lemma make_request_hop:
  "make_request tr url data hdrs method n ssl s =
     (case location_of (fst (hop tr url data hdrs method n ssl s)) of
        None \<Rightarrow> Some (final_result (fst (hop tr url data hdrs method n ssl s)),
                      snd (hop tr url data hdrs method n ssl s))
      | Some loc \<Rightarrow>
          make_request tr loc data (Some (fst (init_headers hdrs s))) method
            default_num_retries default_ssl_compat_mode (snd (hop tr url data hdrs method n ssl s)))"
proof (cases "init_headers hdrs s")
  case (Pair h s1)
  then show ?thesis
    by (subst make_request.simps)
       (auto simp: hop_def first_request_def location_of_def final_result_def
             split: prod.splits sum.splits option.splits)
qed

section \<open>Client errors\<close>

lemma str_int_404: "str_int 404 = ''404''"
  by (simp add: str_int_def str_nat.simps)

lemma loop_client_error:
  assumes "tr (world s) ctx rq = (Raised_HTTPError (Some st) e_str e_body, w')"
    and "\<not> retryable st" and "400 \<le> st" and "st < 500"
  shows "request_loop tr ctx rq url n rc s =
           (Inl (HttpError (if st = 404 then ''HTTP Error '' @ str_int st @ '' '' @ url
                            else ''HTTP Error '' @ str_int st) (Some st) e_body),
            s\<lparr>world := w', trace := trace s @ [Dispatch ctx rq (Raised_HTTPError (Some st) e_str e_body)]\<rparr>)"
  using assms by (subst request_loop.simps) (simp add: retryable_def)

text \<open>
  C7. When the exchange that a call to url \<open>X\<close> opens ends in an \<open>HTTPError\<close> with status
  404, the call raises \<open>HttpError\<close> with the message \<open>HTTP Error 404 X\<close>, the status 404
  and the body of the error; the url is part of the message as it is. The run added one
  event to the trace, the exchange: there was no retry and no sleep.
\<close>

theorem not_found_message_has_url:
  assumes "tr (world s) (make_ssl_context ssl_compat_mode) (first_request url data hdrs method s)
             = (Raised_HTTPError (Some 404) e_str e_body, w')"
  shows "make_request tr url data hdrs method num_retries ssl_compat_mode s =
           Some (Inl (HttpError (''HTTP Error 404 '' @ url) (Some 404) e_body),
                 (snd (init_headers hdrs s))
                   \<lparr>world := w',
                    trace := trace s @ [Dispatch (make_ssl_context ssl_compat_mode)
                                (first_request url data hdrs method s)
                                (Raised_HTTPError (Some 404) e_str e_body)]\<rparr>)
         \<and> sublist url (''HTTP Error 404 '' @ url)"
proof -
  have "suffix url (''HTTP Error 404 '' @ url)"
    by (rule suffixI) (rule refl)
  then have "sublist url (''HTTP Error 404 '' @ url)"
    by (rule suffix_imp_sublist)
  moreover have "hop tr url data hdrs method num_retries ssl_compat_mode s =
      (Inl (HttpError (''HTTP Error 404 '' @ url) (Some 404) e_body),
       (snd (init_headers hdrs s))
         \<lparr>world := w',
          trace := trace s @ [Dispatch (make_ssl_context ssl_compat_mode)
                      (first_request url data hdrs method s)
                      (Raised_HTTPError (Some 404) e_str e_body)]\<rparr>)"
    unfolding hop_def using assms
    by (subst loop_client_error [where st = 404 and e_str = e_str and e_body = e_body and w' = w'])
       (simp_all add: retryable_def str_int_404)
  then have "make_request tr url data hdrs method num_retries ssl_compat_mode s =
           Some (Inl (HttpError (''HTTP Error 404 '' @ url) (Some 404) e_body),
                 (snd (init_headers hdrs s))
                   \<lparr>world := w',
                    trace := trace s @ [Dispatch (make_ssl_context ssl_compat_mode)
                                (first_request url data hdrs method s)
                                (Raised_HTTPError (Some 404) e_str e_body)]\<rparr>)"
    by (simp add: make_request_hop location_of_def final_result_def)
  ultimately show ?thesis by (rule conjI [rotated])
qed

theorem not_found_message_has_url_witness:
  "always (Raised_HTTPError (Some 404) ''Not Found'' ''gone'') (world (initial ()))
     (make_ssl_context False) (first_request ''https://h/pulls'' None None None (initial ()))
     = (Raised_HTTPError (Some 404) ''Not Found'' ''gone'', ())
   \<and> result_of (make_request (always (Raised_HTTPError (Some 404) ''Not Found'' ''gone''))
         ''https://h/pulls'' None None None 3 False (initial ()))
     = Some (Inl (HttpError ''HTTP Error 404 https://h/pulls'' (Some 404) ''gone''))
   \<and> sublist ''https://h/pulls'' ''HTTP Error 404 https://h/pulls''"
  using not_found_message_has_url [of "always (Raised_HTTPError (Some 404) ''Not Found'' ''gone'')"
      "initial ()" False "''https://h/pulls''" None None None "''Not Found''" "''gone''" "()" 3]
  by (simp add: always_def result_of_def)

lemma attempts_simps [simp]:
  "attempts [] = 0"
  "attempts (Dispatch ctx rq out # evs) = Suc (attempts evs)"
  "attempts (Sleep t # evs) = attempts evs"
  "attempts (evs @ evs') = attempts evs + attempts evs'"
  by (simp_all add: attempts_def)

lemma sleeps_simps [simp]:
  "sleeps [] = []"
  "sleeps (Dispatch ctx rq out # evs) = sleeps evs"
  "sleeps (Sleep t # evs) = t # sleeps evs"
  "sleeps (evs @ evs') = sleeps evs @ sleeps evs'"
  by (simp_all add: sleeps_def)

lemma sent_simps [simp]:
  "sent [] = []"
  "sent (Dispatch ctx rq out # evs) = (ctx, rq) # sent evs"
  "sent (Sleep t # evs) = sent evs"
  "sent (evs @ evs') = sent evs @ sent evs'"
  by (simp_all add: sent_def)

lemma loop_leave_fst:
  assumes "\<not> retries tr ctx rq n rc s"
  shows "fst (request_loop tr ctx rq url n rc s) =
     (case fst (tr (world s) ctx rq) of
        Returned st hs b \<Rightarrow> Inr \<lparr>status_code = st, headers = dict_of_items hs, body = b\<rparr>
      | Raised_other x \<Rightarrow> Inl (Propagated x)
      | Raised_HTTPError None e_str e_body \<Rightarrow>
          Inl (HttpError (''Unknown HTTP error: '' @ e_str) None e_body)
      | Raised_HTTPError (Some st) e_str e_body \<Rightarrow>
          if retryable st then Inl (HttpError ''Retries Exceeded'' (Some st) e_body)
          else if 400 \<le> st \<and> st < 500
          then Inl (HttpError (if st = 404 then ''HTTP Error '' @ str_int st @ '' '' @ url
                               else ''HTTP Error '' @ str_int st) (Some st) e_body)
          else Inl (HttpError (''Unknown HTTP Error '' @ str_int st) (Some st) e_body))"
  using assms
  by (subst request_loop.simps)
     (auto simp: retries_def retryable_def Let_def split: outcome.splits option.splits)

lemma loop_sent:
  "set (sent (new_events s (snd (request_loop tr ctx rq url n rc s)))) = {(ctx, rq)}"
proof (induction rc s rule: loop_induct [where tr = tr and ctx = ctx and rq = rq and n = n])
  case (turn rc s)
  show ?case
  proof (cases "retries tr ctx rq n rc s")
    case True
    with turn show ?thesis
      by (simp add: loop_events_continue)
  next
    case False
    then show ?thesis
      by (simp add: loop_events_leave)
  qed
qed

lemma new_events_init_headers [simp]:
  "new_events (snd (init_headers hdrs s)) s' = new_events s s'"
  by (simp add: new_events_def)

lemma make_request_final:
  assumes "location_of (fst (hop tr url data hdrs method n ssl s)) = None"
  shows "make_request tr url data hdrs method n ssl s =
           Some (final_result (fst (hop tr url data hdrs method n ssl s)),
                 snd (hop tr url data hdrs method n ssl s))"
  using assms by (simp add: make_request_hop)

section \<open>Failures that are not retried\<close>

lemma result_of_SomeD: "result_of run = Some r \<Longrightarrow> \<exists>s'. run = Some (r, s')"
  by (auto simp: result_of_def)

lemma hop_leave:
  assumes "\<not> retries tr (make_ssl_context ssl) (first_request url data hdrs method s) n 0
               (snd (init_headers hdrs s))"
  shows "snd (hop tr url data hdrs method n ssl s) =
           (snd (init_headers hdrs s))
             \<lparr>world := snd (tr (world s) (make_ssl_context ssl) (first_request url data hdrs method s)),
              trace := trace s @ [Dispatch (make_ssl_context ssl) (first_request url data hdrs method s)
                 (fst (tr (world s) (make_ssl_context ssl) (first_request url data hdrs method s)))]\<rparr>"
  using assms by (simp add: hop_def loop_leave after_exchange_def)

lemma make_request_no_status:
  assumes "tr (world s) (make_ssl_context ssl) (first_request url data hdrs method s)
             = (Raised_HTTPError None e_str e_body, w')"
  shows "make_request tr url data hdrs method n ssl s =
           Some (Inl (HttpError (''Unknown HTTP error: '' @ e_str) None e_body),
                 (snd (init_headers hdrs s))
                   \<lparr>world := w',
                    trace := trace s @ [Dispatch (make_ssl_context ssl)
                                (first_request url data hdrs method s)
                                (Raised_HTTPError None e_str e_body)]\<rparr>)"
proof -
  let ?ctx = "make_ssl_context ssl" and ?rq = "first_request url data hdrs method s"
  from assms have nr: "\<not> retries tr ?ctx ?rq n 0 (snd (init_headers hdrs s))"
    by (simp add: retries_def)
  from assms have "fst (hop tr url data hdrs method n ssl s) =
      Inl (HttpError (''Unknown HTTP error: '' @ e_str) None e_body)"
    by (simp add: hop_def loop_leave_fst [OF nr])
  with hop_leave [OF nr] assms show ?thesis
    by (simp add: make_request_final location_of_def final_result_def)
qed

lemma make_request_other:
  assumes "tr (world s) (make_ssl_context ssl) (first_request url data hdrs method s)
             = (Raised_other x, w')"
  shows "make_request tr url data hdrs method n ssl s =
           Some (Inl (Propagated x),
                 (snd (init_headers hdrs s))
                   \<lparr>world := w',
                    trace := trace s @ [Dispatch (make_ssl_context ssl)
                                (first_request url data hdrs method s) (Raised_other x)]\<rparr>)"
proof -
  let ?ctx = "make_ssl_context ssl" and ?rq = "first_request url data hdrs method s"
  from assms have nr: "\<not> retries tr ?ctx ?rq n 0 (snd (init_headers hdrs s))"
    by (simp add: retries_def)
  from assms have "fst (hop tr url data hdrs method n ssl s) = Inl (Propagated x)"
    by (simp add: hop_def loop_leave_fst [OF nr])
  with hop_leave [OF nr] assms show ?thesis
    by (simp add: make_request_final location_of_def final_result_def)
qed

text \<open>
  C3, as the claim states it, fails where the connection is refused: that is a \<open>URLError\<close>,
  not an \<open>HTTPError\<close>, so the \<open>except\<close> clause of line 100 does not catch it and the caller
  gets the transport's exception, not an \<open>HttpError\<close>.
\<close>

theorem connection_refused_is_not_classified:
  "result_of (make_request (always (Raised_other ''URLError: Connection refused''))
      ''https://h/pulls'' None None None 3 False (initial ()))
   = Some (Inl (Propagated ''URLError: Connection refused''))
   \<and> \<not> is_HttpError (Propagated ''URLError: Connection refused'')"
  by code_simp

text \<open>
  C3, amended. When the first exchange of a call ends in an \<open>HTTPError\<close> whose status is
  \<open>None\<close>, the call raises \<open>HttpError\<close> with the message \<open>Unknown HTTP error: \<close> followed by
  the text of the error, no status and the body of the error. When it ends in an exception
  that is not an \<open>HTTPError\<close>, that exception leaves the call as it is. In both cases the
  run added one event to the trace, the exchange: nothing is retried and nothing sleeps.
\<close>

theorem statusless_failure_is_not_retried:
  "(tr (world s) (make_ssl_context ssl) (first_request url data hdrs method s)
       = (Raised_HTTPError None e_str e_body, w') \<longrightarrow>
     make_request tr url data hdrs method n ssl s =
       Some (Inl (HttpError (''Unknown HTTP error: '' @ e_str) None e_body),
             (snd (init_headers hdrs s))
               \<lparr>world := w',
                trace := trace s @ [Dispatch (make_ssl_context ssl)
                            (first_request url data hdrs method s)
                            (Raised_HTTPError None e_str e_body)]\<rparr>))
   \<and> (tr (world s) (make_ssl_context ssl) (first_request url data hdrs method s)
       = (Raised_other x, w') \<longrightarrow>
     make_request tr url data hdrs method n ssl s =
       Some (Inl (Propagated x),
             (snd (init_headers hdrs s))
               \<lparr>world := w',
                trace := trace s @ [Dispatch (make_ssl_context ssl)
                            (first_request url data hdrs method s) (Raised_other x)]\<rparr>))"
  by (intro conjI impI) (erule make_request_no_status, erule make_request_other)

theorem statusless_failure_is_not_retried_witness:
  "always (Raised_HTTPError None ''HTTP Error None: '' ''raw'') (world (initial ()))
       (make_ssl_context False) (first_request ''https://h/pulls'' None None None (initial ()))
     = (Raised_HTTPError None ''HTTP Error None: '' ''raw'', ())
   \<and> result_of (make_request (always (Raised_HTTPError None ''HTTP Error None: '' ''raw''))
         ''https://h/pulls'' None None None 3 False (initial ()))
     = Some (Inl (HttpError ''Unknown HTTP error: HTTP Error None: '' None ''raw''))
   \<and> events_of (make_request (always (Raised_HTTPError None ''HTTP Error None: '' ''raw''))
         ''https://h/pulls'' None None None 3 False (initial ()))
     = Some [Dispatch (make_ssl_context False)
               (first_request ''https://h/pulls'' None None None (initial ()))
               (Raised_HTTPError None ''HTTP Error None: '' ''raw'')]
   \<and> always (Raised_other ''ssl.SSLError'') (world (initial ()))
       (make_ssl_context True) (first_request ''https://h/pulls'' None None None (initial ()))
     = (Raised_other ''ssl.SSLError'', ())
   \<and> result_of (make_request (always (Raised_other ''ssl.SSLError''))
         ''https://h/pulls'' None None None 3 True (initial ()))
     = Some (Inl (Propagated ''ssl.SSLError''))
   \<and> events_of (make_request (always (Raised_other ''ssl.SSLError''))
         ''https://h/pulls'' None None None 3 True (initial ()))
     = Some [Dispatch (make_ssl_context True)
               (first_request ''https://h/pulls'' None None None (initial ()))
               (Raised_other ''ssl.SSLError'')]"
  using statusless_failure_is_not_retried
    [of "always (Raised_HTTPError None ''HTTP Error None: '' ''raw'')" "initial ()" False
        "''https://h/pulls''" None None None "''HTTP Error None: ''" "''raw''" "()" 3]
    statusless_failure_is_not_retried
    [of "always (Raised_other ''ssl.SSLError'')" "initial ()" True
        "''https://h/pulls''" None None None _ _ "()" 3 "''ssl.SSLError''"]
  by (simp add: always_def result_of_def events_of_def initial_def)

lemma loop_response_from_transport:
  "fst (request_loop tr ctx rq url n rc s) = Inr resp \<Longrightarrow>
   \<exists>w hs. fst (tr w ctx rq) = Returned (status_code resp) hs (body resp)"
proof (induction rc s rule: loop_induct [where tr = tr and ctx = ctx and rq = rq and n = n])
  case (turn rc s)
  show ?case
  proof (cases "retries tr ctx rq n rc s")
    case True
    with turn show ?thesis
      by (simp add: loop_continue)
  next
    case False
    with turn.prems have "\<exists>hs. fst (tr (world s) ctx rq) = Returned (status_code resp) hs (body resp)"
      by (auto simp: loop_leave_fst split: outcome.splits option.splits if_splits)
    then show ?thesis
      by blast
  qed
qed

section \<open>Backoff\<close>

lemma sleeps_backoff_trace:
  "sleeps (backoff_trace ctx rq k outs) = map (\<lambda>j. 2 ^ j * 60) [k..<k + length outs]"
proof (induction outs arbitrary: k)
  case Nil
  show ?case by simp
next
  case (Cons out outs)
  have "[k..<k + length (out # outs)] = k # [Suc k..<Suc k + length outs]"
    by (subst upt_rec) simp
  with Cons show ?case by simp
qed

lemma attempts_backoff_trace: "attempts (backoff_trace ctx rq k outs) = length outs"
  by (induction outs arbitrary: k) simp_all

lemma scripted_backoff_loop:
  "world s = outs @ Returned st hs b # rest \<Longrightarrow> list_all retryable_error outs \<Longrightarrow>
   0 \<le> rc \<Longrightarrow> rc + int (length outs) \<le> n \<Longrightarrow>
   request_loop scripted ctx rq url n rc s =
     (Inr \<lparr>status_code = st, headers = dict_of_items hs, body = b\<rparr>,
      s\<lparr>world := rest,
        trace := trace s @ backoff_trace ctx rq (nat rc + 1) outs
                   @ [Dispatch ctx rq (Returned st hs b)]\<rparr>)"
proof (induction outs arbitrary: rc s)
  case Nil
  then show ?case
    by (subst request_loop.simps) (simp add: scripted_def)
next
  case (Cons out outs)
  let ?s1 = "after_sleep rc (after_exchange scripted ctx rq s)"
  from Cons.prems have out: "fst (scripted (world s) ctx rq) = out"
    and rest: "snd (scripted (world s) ctx rq) = outs @ Returned st hs b # rest"
    by (simp_all add: scripted_def)
  from Cons.prems have "retryable_error out"
    by simp
  then obtain st' e_str e_body where o: "out = Raised_HTTPError (Some st') e_str e_body"
    and "retryable st'"
    by (cases out rule: retryable_error.cases) auto
  with out Cons.prems have r: "retries scripted ctx rq n rc s"
    by (simp add: retries_def)
  have w1: "world ?s1 = outs @ Returned st hs b # rest"
    using rest by (simp add: after_sleep_def after_exchange_def)
  from Cons.prems have "list_all retryable_error outs" "0 \<le> rc + 1" "rc + 1 + int (length outs) \<le> n"
    by simp_all
  from Cons.IH [OF w1 this]
  have "request_loop scripted ctx rq url n (rc + 1) ?s1 =
     (Inr \<lparr>status_code = st, headers = dict_of_items hs, body = b\<rparr>,
      ?s1\<lparr>world := rest,
        trace := trace ?s1 @ backoff_trace ctx rq (nat (rc + 1) + 1) outs
                   @ [Dispatch ctx rq (Returned st hs b)]\<rparr>)" .
  moreover from Cons.prems have "nat (rc + 1) = Suc (nat rc)"
    by simp
  ultimately show ?case
    using out by (simp add: loop_continue [OF r] after_sleep_def after_exchange_def)
qed

text \<open>
  C6. Against a server that answers a call with retryable errors, no more of them than the
  budget, and then with a response that is not a redirect, the call returns that response,
  and the events it added to the trace are the spec's: every failed exchange is followed
  by a sleep, the \<open>k\<close>-th of them of \<open>2 ^ k * 60\<close> seconds, and the last event is the
  exchange that succeeded. So the waits are 2, 4, 8, ... minutes in this order.
\<close>

theorem backoff_doubles_from_two_minutes:
  assumes "world s = outs @ Returned st hs b # rest"
    and "list_all retryable_error outs"
    and "int (length outs) \<le> n"
    and "\<not> (300 \<le> st \<and> st < 400)"
  shows "\<exists>s'. make_request scripted url data hdrs method n ssl s =
                 Some (Inr \<lparr>status_code = st, headers = dict_of_items hs, body = b\<rparr>, s')
           \<and> new_events s s' =
                 backoff_trace (make_ssl_context ssl) (first_request url data hdrs method s) 1 outs
                 @ [Dispatch (make_ssl_context ssl) (first_request url data hdrs method s)
                      (Returned st hs b)]
           \<and> sleeps (new_events s s') = map (\<lambda>k. 2 ^ k * 60) [1..<Suc (length outs)]"
proof -
  let ?ctx = "make_ssl_context ssl" and ?rq = "first_request url data hdrs method s"
  let ?s1 = "snd (init_headers hdrs s)"
  let ?evs = "backoff_trace ?ctx ?rq 1 outs @ [Dispatch ?ctx ?rq (Returned st hs b)]"
  let ?s' = "?s1\<lparr>world := rest, trace := trace ?s1 @ ?evs\<rparr>"
  from assms(1) have "world ?s1 = outs @ Returned st hs b # rest"
    by simp
  from scripted_backoff_loop [OF this assms(2), of 0 n ?ctx ?rq url] assms(3)
  have h: "hop scripted url data hdrs method n ssl s =
      (Inr \<lparr>status_code = st, headers = dict_of_items hs, body = b\<rparr>, ?s')"
    by (simp add: hop_def)
  with assms(4) have "location_of (fst (hop scripted url data hdrs method n ssl s)) = None"
    and "final_result (fst (hop scripted url data hdrs method n ssl s)) =
      Inr \<lparr>status_code = st, headers = dict_of_items hs, body = b\<rparr>"
    by (auto simp: location_of_def final_result_def)
  with h have "make_request scripted url data hdrs method n ssl s =
      Some (Inr \<lparr>status_code = st, headers = dict_of_items hs, body = b\<rparr>, ?s')"
    by (simp add: make_request_final)
  moreover have "new_events s ?s' = ?evs"
    by (simp add: new_events_def)
  moreover have "sleeps ?evs = map (\<lambda>k. 2 ^ k * 60) [1..<Suc (length outs)]"
    by (simp add: sleeps_backoff_trace)
  ultimately show ?thesis
    by (metis (no_types, lifting))
qed

theorem backoff_doubles_from_two_minutes_witness:
  "\<exists>s'. make_request scripted ''https://h/pulls'' None None None 3 False
           (initial [Raised_HTTPError (Some 503) ''Service Unavailable'' '''',
                     Raised_HTTPError (Some 503) ''Service Unavailable'' '''',
                     Returned 200 [] ''ok'']) =
           Some (Inr \<lparr>status_code = 200, headers = [], body = ''ok''\<rparr>, s')
         \<and> sleeps (new_events (initial [Raised_HTTPError (Some 503) ''Service Unavailable'' '''',
                     Raised_HTTPError (Some 503) ''Service Unavailable'' '''',
                     Returned 200 [] ''ok'']) s') = [2 ^ 1 * 60, 2 ^ 2 * 60]"
  using backoff_doubles_from_two_minutes
    [of "initial [Raised_HTTPError (Some 503) ''Service Unavailable'' '''',
                  Raised_HTTPError (Some 503) ''Service Unavailable'' '''',
                  Returned 200 [] ''ok'']"
        "[Raised_HTTPError (Some 503) ''Service Unavailable'' '''',
          Raised_HTTPError (Some 503) ''Service Unavailable'' '''']"
        200 "[]" "''ok''" "[]" 3 "''https://h/pulls''" None None None False]
  by (auto simp: initial_def retryable_def dict_of_items_def upt_conv_Cons new_events_def)

section \<open>The headers dictionary\<close>

lemma keys_dict_set:
  "map fst (dict_set d k v) = (if k \<in> set (map fst d) then map fst d else map fst d @ [k])"
  by (induction d k v rule: dict_set.induct) auto

lemma dict_contains_set: "dict_contains (dict_set d k v) k"
  unfolding dict_contains_def keys_dict_set by simp

lemma dict_set_absent: "\<not> dict_contains d k \<Longrightarrow> dict_set d k v = d @ [(k, v)]"
  by (induction d k v rule: dict_set.induct) (auto simp: dict_contains_def)

lemma init_headers_present:
  "dict_contains (heap s h) ''Content-Type'' \<Longrightarrow> init_headers (Some h) s = (h, s)"
  by (simp add: init_headers_def)

lemma init_headers_has_content_type:
  "dict_contains (heap (snd (init_headers hdrs s)) (fst (init_headers hdrs s))) ''Content-Type''"
proof (cases hdrs)
  case None
  then show ?thesis
    by (simp add: init_headers_def Let_def dict_contains_def)
next
  case (Some h)
  then show ?thesis
    by (simp add: init_headers_def Let_def dict_contains_set)
qed

lemma init_headers_absent:
  assumes "\<not> dict_contains (heap s h) ''Content-Type''"
  shows "init_headers (Some h) s =
     (h, s\<lparr>heap := (heap s)
            (h := heap s h @ [(''Content-Type'', ''application/json; charset=utf8'')])\<rparr>)"
  using assms by (simp add: init_headers_def dict_set_absent)

lemma init_headers_None:
  "init_headers None s =
     (next_ref s, s\<lparr>heap := (heap s)
            (next_ref s := [(''Content-Type'', ''application/json; charset=utf8'')]),
          next_ref := Suc (next_ref s)\<rparr>)"
  by (simp add: init_headers_def Let_def dict_contains_def)

lemma hop_heap [simp]:
  "heap (snd (hop tr url data hdrs method n ssl s)) = heap (snd (init_headers hdrs s))"
  by (simp add: hop_def)

lemma hop_next_ref [simp]:
  "next_ref (snd (hop tr url data hdrs method n ssl s)) = next_ref (snd (init_headers hdrs s))"
  by (simp add: hop_def)

lemma events_of_run: "run = Some (r, s') \<Longrightarrow> events_of run = Some (trace s')"
  by (simp add: events_of_def)

section \<open>A whole run of the loop\<close>

lemma loop_leave_exit:
  assumes "\<not> retries tr ctx rq n rc s"
  shows "request_loop tr ctx rq url n rc s =
           (exit_value url (fst (tr (world s) ctx rq)), after_exchange tr ctx rq s)"
proof -
  have "fst (request_loop tr ctx rq url n rc s) = exit_value url (fst (tr (world s) ctx rq))"
    using assms
    by (auto simp: loop_leave_fst exit_value_def retries_def
             split: outcome.splits option.splits)
  with loop_leave [OF assms, of url] show ?thesis
    by (simp add: prod_eq_iff)
qed

lemma retries_iff:
  "retries tr ctx rq n rc s \<longleftrightarrow> retryable_error (fst (tr (world s) ctx rq)) \<and> rc + 1 \<le> n"
  by (cases "fst (tr (world s) ctx rq)" rule: retryable_error.cases)
     (auto simp: retries_def)

lemma loop_run:
  "0 \<le> rc \<Longrightarrow>
   \<exists>m. list_all retryable_error (outcomes tr ctx rq (world s) m)
     \<and> (m = 0 \<or> rc + int m \<le> n)
     \<and> (retryable_error (outcome_at tr ctx rq (world s) m) \<longrightarrow> n < rc + int m + 1)
     \<and> request_loop tr ctx rq url n rc s =
         (exit_value url (outcome_at tr ctx rq (world s) m),
          s\<lparr>world := world_after tr ctx rq (world s) (Suc m),
            trace := trace s @ backoff_trace ctx rq (nat rc + 1) (outcomes tr ctx rq (world s) m)
                       @ [Dispatch ctx rq (outcome_at tr ctx rq (world s) m)]\<rparr>)"
proof (induction rc s rule: loop_induct [where tr = tr and ctx = ctx and rq = rq and n = n])
  case (turn rc s)
  show ?case
  proof (cases "retries tr ctx rq n rc s")
    case False
    then have "retryable_error (fst (tr (world s) ctx rq)) \<longrightarrow> n < rc + 1"
      by (auto simp: retries_iff)
    with loop_leave_exit [OF False, of url] show ?thesis
      by (intro exI [of _ 0]) (simp add: outcome_at_def after_exchange_def)
  next
    case True
    let ?s1 = "after_sleep rc (after_exchange tr ctx rq s)"
    have w1: "world ?s1 = snd (tr (world s) ctx rq)"
      by (simp add: after_sleep_def after_exchange_def)
    from True have r0: "retryable_error (fst (tr (world s) ctx rq))" and le: "rc + 1 \<le> n"
      by (simp_all add: retries_iff)
    from turn.prems have "0 \<le> rc + 1"
      by simp
    from turn.IH [OF True this] obtain m where
      a: "list_all retryable_error (outcomes tr ctx rq (world ?s1) m)"
      and b: "m = 0 \<or> rc + 1 + int m \<le> n"
      and c: "retryable_error (outcome_at tr ctx rq (world ?s1) m) \<longrightarrow> n < rc + 1 + int m + 1"
      and d: "request_loop tr ctx rq url n (rc + 1) ?s1 =
         (exit_value url (outcome_at tr ctx rq (world ?s1) m),
          ?s1\<lparr>world := world_after tr ctx rq (world ?s1) (Suc m),
            trace := trace ?s1 @ backoff_trace ctx rq (nat (rc + 1) + 1)
                         (outcomes tr ctx rq (world ?s1) m)
                       @ [Dispatch ctx rq (outcome_at tr ctx rq (world ?s1) m)]\<rparr>)"
      by blast
    have o: "outcome_at tr ctx rq (world s) (Suc m) = outcome_at tr ctx rq (world ?s1) m"
      by (simp add: outcome_at_def w1)
    have n1: "nat (rc + 1) = Suc (nat rc)"
      using turn.prems by simp
    have "list_all retryable_error (outcomes tr ctx rq (world s) (Suc m))"
      using a r0 by (simp add: w1)
    moreover have "Suc m = 0 \<or> rc + int (Suc m) \<le> n"
      using b le by auto
    moreover have "retryable_error (outcome_at tr ctx rq (world s) (Suc m))
        \<longrightarrow> n < rc + int (Suc m) + 1"
      using c by (simp add: o)
    moreover have "request_loop tr ctx rq url n rc s =
         (exit_value url (outcome_at tr ctx rq (world s) (Suc m)),
          s\<lparr>world := world_after tr ctx rq (world s) (Suc (Suc m)),
            trace := trace s @ backoff_trace ctx rq (nat rc + 1)
                         (outcomes tr ctx rq (world s) (Suc m))
                       @ [Dispatch ctx rq (outcome_at tr ctx rq (world s) (Suc m))]\<rparr>)"
      unfolding loop_continue [OF True] d o
      by (simp add: w1 n1 after_sleep_def after_exchange_def)
    ultimately show ?thesis
      by (intro exI [of _ "Suc m"] conjI)
  qed
qed

lemma length_outcomes [simp]: "length (outcomes tr ctx rq w m) = m"
  by (induction m arbitrary: w) simp_all

lemma sent_backoff_trace:
  "sent (backoff_trace ctx rq k outs) = replicate (length outs) (ctx, rq)"
  by (induction outs arbitrary: k) simp_all

lemma dispatch_in_backoff_trace:
  "Dispatch c r out \<in> set (backoff_trace ctx rq k outs) \<Longrightarrow> out \<in> set outs"
  by (induction outs arbitrary: k) auto

lemma hop_run:
  "\<exists>m. list_all retryable_error
          (outcomes tr (make_ssl_context ssl) (first_request url data hdrs method s) (world s) m)
     \<and> (m = 0 \<or> int m \<le> n)
     \<and> (retryable_error
          (outcome_at tr (make_ssl_context ssl) (first_request url data hdrs method s) (world s) m)
         \<longrightarrow> n < int m + 1)
     \<and> hop tr url data hdrs method n ssl s =
         (exit_value url
            (outcome_at tr (make_ssl_context ssl) (first_request url data hdrs method s) (world s) m),
          (snd (init_headers hdrs s))
            \<lparr>world := world_after tr (make_ssl_context ssl)
                        (first_request url data hdrs method s) (world s) (Suc m),
             trace := trace s
               @ backoff_trace (make_ssl_context ssl) (first_request url data hdrs method s) 1
                   (outcomes tr (make_ssl_context ssl) (first_request url data hdrs method s)
                      (world s) m)
               @ [Dispatch (make_ssl_context ssl) (first_request url data hdrs method s)
                    (outcome_at tr (make_ssl_context ssl) (first_request url data hdrs method s)
                       (world s) m)]\<rparr>)"
  using loop_run [of 0 tr "make_ssl_context ssl" "first_request url data hdrs method s"
      "snd (init_headers hdrs s)" n url]
  by (simp add: hop_def)

lemma exit_value_of_opener:
  assumes "returns_2xx_only tr"
  shows "location_of (exit_value url (outcome_at tr ctx rq w m)) = None"
    and "final_result (exit_value url (outcome_at tr ctx rq w m))
           = exit_value url (outcome_at tr ctx rq w m)"
proof -
  have "200 \<le> st \<and> st < 300" if "outcome_at tr ctx rq w m = Returned st hs b" for st hs b
    using assms that unfolding returns_2xx_only_def outcome_at_def by blast
  then show "location_of (exit_value url (outcome_at tr ctx rq w m)) = None"
    and "final_result (exit_value url (outcome_at tr ctx rq w m))
           = exit_value url (outcome_at tr ctx rq w m)"
    by (auto simp: location_of_def final_result_def exit_value_def
             split: outcome.splits option.splits)
qed

lemma exit_value_of_failure:
  assumes "\<And>st hs b. out \<noteq> Returned st hs b"
  shows "location_of (exit_value url out) = None"
    and "final_result (exit_value url out) = exit_value url out"
  using assms
  by (auto simp: location_of_def final_result_def exit_value_def
           split: outcome.splits option.splits)

lemma opener_run:
  assumes "returns_2xx_only tr"
  shows "\<exists>m. list_all retryable_error
          (outcomes tr (make_ssl_context ssl) (first_request url data hdrs method s) (world s) m)
     \<and> (m = 0 \<or> int m \<le> n)
     \<and> (retryable_error
          (outcome_at tr (make_ssl_context ssl) (first_request url data hdrs method s) (world s) m)
         \<longrightarrow> n < int m + 1)
     \<and> make_request tr url data hdrs method n ssl s =
         Some (exit_value url
            (outcome_at tr (make_ssl_context ssl) (first_request url data hdrs method s) (world s) m),
          (snd (init_headers hdrs s))
            \<lparr>world := world_after tr (make_ssl_context ssl)
                        (first_request url data hdrs method s) (world s) (Suc m),
             trace := trace s
               @ backoff_trace (make_ssl_context ssl) (first_request url data hdrs method s) 1
                   (outcomes tr (make_ssl_context ssl) (first_request url data hdrs method s)
                      (world s) m)
               @ [Dispatch (make_ssl_context ssl) (first_request url data hdrs method s)
                    (outcome_at tr (make_ssl_context ssl) (first_request url data hdrs method s)
                       (world s) m)]\<rparr>)"
proof -
  let ?ctx = "make_ssl_context ssl" and ?rq = "first_request url data hdrs method s"
  from hop_run [of tr ssl url data hdrs "method" s n] obtain m where
    a: "list_all retryable_error (outcomes tr ?ctx ?rq (world s) m)"
    and b: "m = 0 \<or> int m \<le> n"
    and c: "retryable_error (outcome_at tr ?ctx ?rq (world s) m) \<longrightarrow> n < int m + 1"
    and d: "hop tr url data hdrs method n ssl s =
         (exit_value url (outcome_at tr ?ctx ?rq (world s) m),
          (snd (init_headers hdrs s))
            \<lparr>world := world_after tr ?ctx ?rq (world s) (Suc m),
             trace := trace s @ backoff_trace ?ctx ?rq 1 (outcomes tr ?ctx ?rq (world s) m)
               @ [Dispatch ?ctx ?rq (outcome_at tr ?ctx ?rq (world s) m)]\<rparr>)"
    by blast
  from d exit_value_of_opener [OF assms, of url ?ctx ?rq "world s" m]
  have "make_request tr url data hdrs method n ssl s =
         Some (exit_value url (outcome_at tr ?ctx ?rq (world s) m),
          (snd (init_headers hdrs s))
            \<lparr>world := world_after tr ?ctx ?rq (world s) (Suc m),
             trace := trace s @ backoff_trace ?ctx ?rq 1 (outcomes tr ?ctx ?rq (world s) m)
               @ [Dispatch ?ctx ?rq (outcome_at tr ?ctx ?rq (world s) m)]\<rparr>)"
    by (simp add: make_request_final)
  with a b c show ?thesis
    by (intro exI [of _ m] conjI)
qed

section \<open>Retries\<close>

lemma world_after_counting [simp]: "world_after (counting f) ctx rq w m = w + m"
  by (induction m arbitrary: w) (simp_all add: counting_def)

lemma outcome_at_counting [simp]: "outcome_at (counting f) ctx rq w m = f (w + m)"
  by (simp add: outcome_at_def counting_def)

lemma attempts_backoff_run [simp]:
  "attempts (backoff_trace ctx rq k outs @ [Dispatch ctx rq out]) = Suc (length outs)"
  by (simp add: attempts_backoff_trace)

text \<open>
  C2. With a retry budget \<open>n \<ge> 0\<close> and a transport whose every exchange ends in an
  \<open>HTTPError\<close> with status 429 or 5xx, the call returns: it raises \<open>HttpError\<close> with the
  message \<open>Retries Exceeded\<close> and with the status and the body of the error in which the
  transport ended exchange number \<open>n + 1\<close>. The events of the run are the transport's
  first \<open>n\<close> outcomes, each followed by its sleep, and that last exchange: \<open>n + 1\<close>
  exchanges and \<open>n\<close> sleeps, with the world left as the transport left it after them.
\<close>

theorem retries_exceeded_after_budget:
  assumes "0 \<le> n" and "\<forall>w ctx rq. retryable_error (fst (tr w ctx rq))"
  shows "\<exists>st e_str e_body s'.
           outcome_at tr (make_ssl_context ssl) (first_request url data hdrs method s)
               (world s) (nat n)
             = Raised_HTTPError (Some st) e_str e_body
         \<and> make_request tr url data hdrs method n ssl s =
             Some (Inl (HttpError ''Retries Exceeded'' (Some st) e_body), s')
         \<and> world s' = world_after tr (make_ssl_context ssl)
               (first_request url data hdrs method s) (world s) (Suc (nat n))
         \<and> new_events s s' =
             backoff_trace (make_ssl_context ssl) (first_request url data hdrs method s) 1
               (outcomes tr (make_ssl_context ssl) (first_request url data hdrs method s)
                  (world s) (nat n))
             @ [Dispatch (make_ssl_context ssl) (first_request url data hdrs method s)
                  (Raised_HTTPError (Some st) e_str e_body)]
         \<and> attempts (new_events s s') = nat n + 1
         \<and> sleeps (new_events s s') = map (\<lambda>k. 2 ^ k * 60) [1..<Suc (nat n)]"
proof -
  let ?ctx = "make_ssl_context ssl" and ?rq = "first_request url data hdrs method s"
  from hop_run [of tr ssl url data hdrs "method" s n] obtain m where
    b: "m = 0 \<or> int m \<le> n"
    and c: "retryable_error (outcome_at tr ?ctx ?rq (world s) m) \<longrightarrow> n < int m + 1"
    and d: "hop tr url data hdrs method n ssl s =
         (exit_value url (outcome_at tr ?ctx ?rq (world s) m),
          (snd (init_headers hdrs s))
            \<lparr>world := world_after tr ?ctx ?rq (world s) (Suc m),
             trace := trace s @ backoff_trace ?ctx ?rq 1 (outcomes tr ?ctx ?rq (world s) m)
               @ [Dispatch ?ctx ?rq (outcome_at tr ?ctx ?rq (world s) m)]\<rparr>)"
    by blast
  let ?out = "outcome_at tr ?ctx ?rq (world s) m"
  let ?s' = "(snd (init_headers hdrs s))
            \<lparr>world := world_after tr ?ctx ?rq (world s) (Suc m),
             trace := trace s @ backoff_trace ?ctx ?rq 1 (outcomes tr ?ctx ?rq (world s) m)
               @ [Dispatch ?ctx ?rq ?out]\<rparr>"
  from assms(2) have r: "retryable_error ?out"
    by (simp add: outcome_at_def)
  with b c assms(1) have m: "m = nat n"
    by auto
  from r obtain st e_str e_body where out: "?out = Raised_HTTPError (Some st) e_str e_body"
    and st: "retryable st"
    by (cases ?out rule: retryable_error.cases) auto
  then have ev: "exit_value url ?out = Inl (HttpError ''Retries Exceeded'' (Some st) e_body)"
    by (simp add: exit_value_def)
  from d ev have run: "make_request tr url data hdrs method n ssl s =
      Some (Inl (HttpError ''Retries Exceeded'' (Some st) e_body), ?s')"
    by (simp add: make_request_final location_of_def final_result_def)
  have ne: "new_events s ?s' = backoff_trace ?ctx ?rq 1 (outcomes tr ?ctx ?rq (world s) m)
               @ [Dispatch ?ctx ?rq ?out]"
    by (simp add: new_events_def)
  have "outcome_at tr ?ctx ?rq (world s) (nat n) = Raised_HTTPError (Some st) e_str e_body
      \<and> make_request tr url data hdrs method n ssl s =
             Some (Inl (HttpError ''Retries Exceeded'' (Some st) e_body), ?s')
      \<and> world ?s' = world_after tr ?ctx ?rq (world s) (Suc (nat n))
      \<and> new_events s ?s' = backoff_trace ?ctx ?rq 1 (outcomes tr ?ctx ?rq (world s) (nat n))
             @ [Dispatch ?ctx ?rq (Raised_HTTPError (Some st) e_str e_body)]
      \<and> attempts (new_events s ?s') = nat n + 1
      \<and> sleeps (new_events s ?s') = map (\<lambda>k. 2 ^ k * 60) [1..<Suc (nat n)]"
    using out run m by (simp add: ne sleeps_backoff_trace attempts_backoff_trace)
  then show ?thesis
    by (intro exI)
qed

theorem retries_exceeded_after_budget_witness:
  "\<exists>s'. make_request
          (counting (\<lambda>k. if k < 3 then Raised_HTTPError (Some 503) ''Service Unavailable'' ''busy''
                         else Raised_HTTPError (Some 429) ''Too Many Requests'' ''slow down''))
          ''https://h/pulls'' None None None 3 False (initial 0) =
          Some (Inl (HttpError ''Retries Exceeded'' (Some 429) ''slow down''), s')
      \<and> world s' = 4
      \<and> attempts (new_events (initial 0) s') = 4
      \<and> sleeps (new_events (initial 0) s') = [120, 240, 480]"
proof -
  let ?f = "\<lambda>k::nat. if k < 3 then Raised_HTTPError (Some 503) ''Service Unavailable'' ''busy''
                         else Raised_HTTPError (Some 429) ''Too Many Requests'' ''slow down''"
  have "\<forall>w ctx rq. retryable_error (fst (counting ?f w ctx rq))"
    by (simp add: counting_def retryable_def)
  from retries_exceeded_after_budget
    [of 3 "counting ?f" False "''https://h/pulls''" None None None "initial 0", OF _ this]
  obtain st e_str e_body s' where
    "?f 3 = Raised_HTTPError (Some st) e_str e_body"
    and "make_request (counting ?f) ''https://h/pulls'' None None None 3 False (initial 0) =
          Some (Inl (HttpError ''Retries Exceeded'' (Some st) e_body), s')"
    and "world s' = 4"
    and "attempts (new_events (initial 0) s') = 4"
    and "sleeps (new_events (initial 0) s') = map (\<lambda>k. 2 ^ k * 60) [1..<Suc 3]"
    by (auto simp: initial_def)
  then have "make_request (counting ?f) ''https://h/pulls'' None None None 3 False (initial 0) =
          Some (Inl (HttpError ''Retries Exceeded'' (Some 429) ''slow down''), s')
      \<and> world s' = 4
      \<and> attempts (new_events (initial 0) s') = 4
      \<and> sleeps (new_events (initial 0) s') = [120, 240, 480]"
    by (simp add: upt_conv_Cons)
  then show ?thesis
    by (rule exI)
qed

section \<open>Calls through the opener of lines 87 to 89\<close>

lemma urlopen_returned:
  "fst (urlopen srv w ctx rq) = Returned st hs b \<Longrightarrow> 200 \<le> st \<and> st < 300"
proof (induction srv w ctx rq rule: urlopen.induct)
  case (1 srv v visited ctx rq)
  obtain r v' where r: "srv v ctx rq = (r, v')"
    by (cases "srv v ctx rq")
  show ?case
  proof (cases r)
    case (Unreachable x)
    with "1.prems" r show ?thesis
      by simp
  next
    case (Reply code msg hs' b')
    note rp = r [unfolded Reply]
    show ?thesis
    proof (cases "200 \<le> code \<and> code < 300")
      case True
      with "1.prems" rp show ?thesis
        by simp
    next
      case ok: False
      show ?thesis
      proof (cases "code \<in> set [301, 302, 303, 307, 308]")
        case False
        with "1.prems" rp ok show ?thesis
          by simp
      next
        case rc: True
        show ?thesis
        proof (cases "redirect_url hs'")
          case None
          with "1.prems" rp ok rc show ?thesis
            by simp
        next
          case (Some newurl)
          show ?thesis
          proof (cases "\<not> redirect_allowed code (get_method rq)
              \<or> max_repeats \<le> seen visited newurl \<or> max_redirections \<le> length visited")
            case True
            with "1.prems" rp ok rc Some show ?thesis
              by (simp split: if_splits)
          next
            case False
            then have a: "\<not> \<not> redirect_allowed code (get_method rq)"
              and l: "\<not> (max_repeats \<le> seen visited newurl \<or> max_redirections \<le> length visited)"
              by simp_all
            from "1.prems" rp ok rc Some False
            have "fst (urlopen srv (v', bump visited newurl) ctx (redirect_request rq newurl))
                    = Returned st hs b"
              by simp
            with "1.IH" [OF rp [symmetric] refl ok rc Some a l] show ?thesis
              by simp
          qed
        qed
      qed
    qed
  qed
qed

lemma opener_contract: "returns_2xx_only (urlopen srv)"
  unfolding returns_2xx_only_def using urlopen_returned by blast

lemma exit_value_not_KeyError: "exit_value url out \<noteq> Inl (KeyError k)"
  by (simp add: exit_value_def split: outcome.splits option.splits)

lemma exit_value_response:
  assumes "exit_value url out = Inr response"
  shows "\<exists>hs. out = Returned (status_code response) hs (body response)
            \<and> headers response = dict_of_items hs"
  using assms by (auto simp: exit_value_def split: outcome.splits option.splits if_splits)

lemma exit_value_unknown:
  assumes "\<not> retryable st" and "\<not> (400 \<le> st \<and> st < 500)"
  shows "exit_value url (Raised_HTTPError (Some st) e_str e_body) =
           Inl (HttpError (''Unknown HTTP Error '' @ str_int st) (Some st) e_body)"
  using assms by (auto simp: exit_value_def)


lemma opener_call:
  assumes "returns_2xx_only tr"
  shows "\<exists>s' outs out.
           make_request tr url data hdrs method n ssl s = Some (exit_value url out, s')
         \<and> new_events s s' =
             backoff_trace (make_ssl_context ssl) (first_request url data hdrs method s) 1 outs
             @ [Dispatch (make_ssl_context ssl) (first_request url data hdrs method s) out]
         \<and> list_all retryable_error outs
         \<and> (outs = [] \<or> int (length outs) \<le> n)
         \<and> (\<forall>st hs b. out = Returned st hs b \<longrightarrow> 200 \<le> st \<and> st < 300)
         \<and> heap s' = heap (snd (init_headers hdrs s))
         \<and> next_ref s' = next_ref (snd (init_headers hdrs s))"
proof -
  let ?ctx = "make_ssl_context ssl" and ?rq = "first_request url data hdrs method s"
  from opener_run [OF assms, of ssl url data hdrs "method" s n] obtain m where
    a: "list_all retryable_error (outcomes tr ?ctx ?rq (world s) m)"
    and b: "m = 0 \<or> int m \<le> n"
    and d: "make_request tr url data hdrs method n ssl s =
         Some (exit_value url (outcome_at tr ?ctx ?rq (world s) m),
          (snd (init_headers hdrs s))
            \<lparr>world := world_after tr ?ctx ?rq (world s) (Suc m),
             trace := trace s @ backoff_trace ?ctx ?rq 1 (outcomes tr ?ctx ?rq (world s) m)
               @ [Dispatch ?ctx ?rq (outcome_at tr ?ctx ?rq (world s) m)]\<rparr>)"
    by blast
  let ?s' = "(snd (init_headers hdrs s))
            \<lparr>world := world_after tr ?ctx ?rq (world s) (Suc m),
             trace := trace s @ backoff_trace ?ctx ?rq 1 (outcomes tr ?ctx ?rq (world s) m)
               @ [Dispatch ?ctx ?rq (outcome_at tr ?ctx ?rq (world s) m)]\<rparr>"
  have e: "new_events s ?s' = backoff_trace ?ctx ?rq 1 (outcomes tr ?ctx ?rq (world s) m)
               @ [Dispatch ?ctx ?rq (outcome_at tr ?ctx ?rq (world s) m)]"
    by (simp add: new_events_def)
  have f: "\<forall>st hs b. outcome_at tr ?ctx ?rq (world s) m = Returned st hs b
             \<longrightarrow> 200 \<le> st \<and> st < 300"
    using assms unfolding returns_2xx_only_def outcome_at_def by blast
  from b have g: "outcomes tr ?ctx ?rq (world s) m = [] \<or>
      int (length (outcomes tr ?ctx ?rq (world s) m)) \<le> n"
    by auto
  have "make_request tr url data hdrs method n ssl s
          = Some (exit_value url (outcome_at tr ?ctx ?rq (world s) m), ?s')
      \<and> new_events s ?s' = backoff_trace ?ctx ?rq 1 (outcomes tr ?ctx ?rq (world s) m)
               @ [Dispatch ?ctx ?rq (outcome_at tr ?ctx ?rq (world s) m)]
      \<and> list_all retryable_error (outcomes tr ?ctx ?rq (world s) m)
      \<and> (outcomes tr ?ctx ?rq (world s) m = [] \<or>
            int (length (outcomes tr ?ctx ?rq (world s) m)) \<le> n)
      \<and> (\<forall>st hs b. outcome_at tr ?ctx ?rq (world s) m = Returned st hs b
             \<longrightarrow> 200 \<le> st \<and> st < 300)
      \<and> heap ?s' = heap (snd (init_headers hdrs s))
      \<and> next_ref ?s' = next_ref (snd (init_headers hdrs s))"
    using a d e f g by simp
  then show ?thesis
    by (intro exI)
qed

lemma ending_exchange:
  assumes "Dispatch c r (Raised_HTTPError (Some st) e_str e_body)
             \<in> set (backoff_trace ctx rq k outs @ [Dispatch ctx rq out])"
    and "list_all retryable_error outs" and "\<not> retryable st"
  shows "out = Raised_HTTPError (Some st) e_str e_body"
proof (rule ccontr)
  assume "out \<noteq> Raised_HTTPError (Some st) e_str e_body"
  with assms(1) have "Dispatch c r (Raised_HTTPError (Some st) e_str e_body)
      \<in> set (backoff_trace ctx rq k outs)"
    by auto
  then have "Raised_HTTPError (Some st) e_str e_body \<in> set outs"
    by (rule dispatch_in_backoff_trace)
  with assms(2) have "retryable_error (Raised_HTTPError (Some st) e_str e_body)"
    unfolding list_all_iff by (rule bspec)
  with assms(3) show False
    by simp
qed

lemma trace_of_run: "run = Some (r, s') \<Longrightarrow> events_of run = Some evs \<Longrightarrow> trace s' = evs"
  by (simp add: events_of_def)

lemma new_events_initial [simp]: "new_events (initial w) s' = trace s'"
  by (simp add: new_events_def initial_def)


lemma str_int_304: "str_int 304 = ''304''"
  by (simp add: str_int_def str_nat.simps)

section \<open>Redirects\<close>

lemma set_sent_backoff_run:
  "set (sent (backoff_trace ctx rq k outs @ [Dispatch ctx rq out])) = {(ctx, rq)}"
  by (auto simp: sent_backoff_trace)

lemma attempts_within_budget:
  assumes "outs = [] \<or> int (length outs) \<le> n"
  shows "attempts (backoff_trace ctx rq k outs @ [Dispatch ctx rq out]) \<le> nat n + 1"
  using assms by (auto simp: attempts_backoff_trace)

lemma first_request_fields:
  "req_url (first_request url data hdrs method s) = url"
  "req_data (first_request url data hdrs method s) = data"
  "req_method (first_request url data hdrs method s) = method"
  by (cases "init_headers hdrs s"; simp add: first_request_def Request_def)+

section \<open>The headers of the request\<close>

lemma dict_get_dict_set:
  "dict_get (dict_set d k v) k' = (if k' = k then Some v else dict_get d k')"
  by (induction d k v rule: dict_set.induct) (auto simp: dict_get_def)

lemma capitalize_Content_Type: "capitalize ''Content-Type'' = ''Content-type''"
  by code_simp

lemma dict_get_add_header:
  "dict_get (add_header d k v) name = (if name = capitalize k then Some v else dict_get d name)"
  by (simp add: add_header_def dict_get_dict_set)

lemma stored_headers:
  "dict_get (foldl (\<lambda>hs (k, v). add_header hs k v) acc d) name =
     (case map_of (rev (map (\<lambda>(k, v). (capitalize k, v)) d)) name of
        Some v \<Rightarrow> Some v
      | None \<Rightarrow> dict_get acc name)"
proof (induction d arbitrary: acc)
  case Nil
  show ?case by simp
next
  case (Cons kv d)
  obtain k v where kv: "kv = (k, v)"
    by (cases kv)
  show ?case
    unfolding kv
    by (simp add: Cons.IH dict_get_add_header map_add_def split: option.splits)
qed

lemma only_spelling:
  assumes "distinct (map fst d)"
    and "\<forall>k\<in>set (map fst d). capitalize k = capitalize name \<longrightarrow> k = name"
  shows "map_of (rev (map (\<lambda>(k, v). (capitalize k, v)) d)) (capitalize name) = map_of d name"
  using assms
proof (induction d)
  case Nil
  show ?case by simp
next
  case (Cons kv d)
  obtain k v where kv: "kv = (k, v)"
    by (cases kv)
  from Cons.prems have d: "distinct (map fst d)"
    and o: "\<forall>k\<in>set (map fst d). capitalize k = capitalize name \<longrightarrow> k = name"
    and k: "capitalize k = capitalize name \<longrightarrow> k = name"
    and nk: "k \<notin> fst ` set d"
    by (simp_all add: kv)
  from Cons.IH [OF d o]
  have ih: "map_of (rev (map (\<lambda>(k, v). (capitalize k, v)) d)) (capitalize name) = map_of d name" .
  show ?case
  proof (cases "k = name")
    case True
    with nk have "map_of d name = None"
      by (simp add: map_of_eq_None_iff)
    with ih True show ?thesis
      by (simp add: kv map_add_def)
  next
    case False
    with k have "capitalize k \<noteq> capitalize name"
      by blast
    with ih False show ?thesis
      by (auto simp: kv map_add_def split: option.splits)
  qed
qed

lemma content_type_default:
  assumes "\<not> dict_contains (heap s h) ''Content-Type''"
  shows "content_type (first_request url data (Some h) method s)
           = Some ''application/json; charset=utf8''"
  using assms
  by (simp add: first_request_def init_headers_absent Request_def content_type_def
        dict_get_add_header capitalize_Content_Type del: capitalize.simps)

lemma content_type_default_None:
  "content_type (first_request url data None method s) = Some ''application/json; charset=utf8''"
  by (simp add: first_request_def init_headers_None Request_def content_type_def
        dict_get_add_header capitalize_Content_Type del: capitalize.simps)

lemma content_type_of_caller:
  assumes "dict_contains (heap s h) ''Content-Type''"
    and "distinct (map fst (heap s h))"
    and "\<forall>k\<in>set (map fst (heap s h)). capitalize k = ''Content-type'' \<longrightarrow> k = ''Content-Type''"
  shows "content_type (first_request url data (Some h) method s)
           = dict_get (heap s h) ''Content-Type''"
proof -
  from assms(1) obtain v where v: "map_of (heap s h) ''Content-Type'' = Some v"
    by (cases "map_of (heap s h) ''Content-Type''")
       (simp_all add: dict_contains_def map_of_eq_None_iff)
  from assms(3) have "\<forall>k\<in>set (map fst (heap s h)).
      capitalize k = capitalize ''Content-Type'' \<longrightarrow> k = ''Content-Type''"
    by (simp only: capitalize_Content_Type)
  from only_spelling [OF assms(2) this] v
  have "map_of (rev (map (\<lambda>(k, v). (capitalize k, v)) (heap s h))) ''Content-type'' = Some v"
    by (simp only: capitalize_Content_Type)
  with v show ?thesis
    using assms(1)
    by (simp add: first_request_def init_headers_present Request_def content_type_def
          stored_headers) (simp add: dict_get_def)
qed

lemma urlopen_error:
  assumes "srv v ctx rq = (Reply code msg hs b, v')"
    and "\<not> (200 \<le> code \<and> code < 300)"
    and "code \<notin> set [301, 302, 303, 307, 308] \<or> redirect_url hs = None"
  shows "urlopen srv (v, vis) ctx rq
           = (Raised_HTTPError (Some code) (http_error_str code msg) b, (v', vis))"
  using assms by auto

lemma unknown_status_of_a_call:
  assumes "returns_2xx_only tr"
  shows "\<exists>r s'. make_request tr url data hdrs method n ssl s = Some (r, s')
           \<and> (\<forall>k. r \<noteq> Inl (KeyError k))
           \<and> (\<forall>response. r = Inr response \<longrightarrow>
                 200 \<le> status_code response \<and> status_code response \<le> 299
                 \<and> (\<exists>hs. last (new_events s s')
                        = Dispatch (make_ssl_context ssl) (first_request url data hdrs method s)
                            (Returned (status_code response) hs (body response))
                      \<and> headers response = dict_of_items hs))
           \<and> (\<forall>ctx rq st e_str e_body.
                 Dispatch ctx rq (Raised_HTTPError (Some st) e_str e_body) \<in> set (new_events s s')
                 \<and> \<not> retryable st \<and> \<not> (400 \<le> st \<and> st < 500)
                 \<longrightarrow> r = Inl (HttpError (''Unknown HTTP Error '' @ str_int st) (Some st) e_body))"
proof -
  let ?ctx = "make_ssl_context ssl" and ?rq = "first_request url data hdrs method s"
  from opener_call [OF assms, of url data hdrs "method" n ssl s] obtain s' outs out where
    run: "make_request tr url data hdrs method n ssl s = Some (exit_value url out, s')"
    and ev: "new_events s s' = backoff_trace ?ctx ?rq 1 outs @ [Dispatch ?ctx ?rq out]"
    and outs: "list_all retryable_error outs"
    and ok: "\<forall>st hs b. out = Returned st hs b \<longrightarrow> 200 \<le> st \<and> st < 300"
    by blast
  have first: "200 \<le> status_code response \<and> status_code response \<le> 299
      \<and> (\<exists>hs. last (new_events s s')
             = Dispatch ?ctx ?rq (Returned (status_code response) hs (body response))
           \<and> headers response = dict_of_items hs)"
    if "exit_value url out = Inr response" for response
  proof -
    from exit_value_response [OF that] obtain hs where
      o: "out = Returned (status_code response) hs (body response)"
      and h: "headers response = dict_of_items hs"
      by blast
    with ok have "200 \<le> status_code response \<and> status_code response < 300"
      by blast
    moreover from o have "last (new_events s s')
        = Dispatch ?ctx ?rq (Returned (status_code response) hs (body response))"
      by (simp add: ev)
    ultimately show ?thesis
      using h by auto
  qed
  have second: "exit_value url out
      = Inl (HttpError (''Unknown HTTP Error '' @ str_int st) (Some st) e_body)"
    if "Dispatch ctx rq (Raised_HTTPError (Some st) e_str e_body) \<in> set (new_events s s')
        \<and> \<not> retryable st \<and> \<not> (400 \<le> st \<and> st < 500)" for ctx rq st e_str e_body
  proof -
    from that have "Dispatch ctx rq (Raised_HTTPError (Some st) e_str e_body)
        \<in> set (backoff_trace ?ctx ?rq 1 outs @ [Dispatch ?ctx ?rq out])"
      by (simp only: ev)
    then have "out = Raised_HTTPError (Some st) e_str e_body"
      using outs that by (intro ending_exchange [of ctx rq st e_str e_body ?ctx ?rq 1 outs out]) simp_all
    with that show ?thesis
      by (simp add: exit_value_unknown)
  qed
  from run first second exit_value_not_KeyError [of url out] show ?thesis
    by (intro exI [of _ "exit_value url out"] exI [of _ s']) blast
qed



lemma str_int_600: "str_int 600 = ''600''"
  by code_simp

text \<open>
  C5. Every call returns or raises, and a response that it returns has a status in
  [200, 299]: it is the response of the last exchange, as the opener handed it back. A
  response whose status is below 200 or above 599 is not handed back by the opener:
  \<open>opener.open\<close> raises an \<open>HTTPError\<close> with the status, the reason and the body. A call
  in which an exchange ends in an \<open>HTTPError\<close> whose status is neither 429 nor in
  [400, 600) raises \<open>HttpError\<close> with the message \<open>Unknown HTTP Error\<close> and the status,
  carrying the status and the body: such an outcome is not returned as a response.
\<close>

theorem returned_response_has_success_status:
  "(\<exists>r s'. make_request (urlopen srv) url data hdrs method n ssl s = Some (r, s')
           \<and> (\<forall>response. r = Inr response \<longrightarrow>
                 200 \<le> status_code response \<and> status_code response \<le> 299
                 \<and> (\<exists>hs. last (new_events s s')
                        = Dispatch (make_ssl_context ssl) (first_request url data hdrs method s)
                            (Returned (status_code response) hs (body response))
                      \<and> headers response = dict_of_items hs))
           \<and> (\<forall>ctx rq st e_str e_body.
                 Dispatch ctx rq (Raised_HTTPError (Some st) e_str e_body) \<in> set (new_events s s')
                 \<and> \<not> retryable st \<and> \<not> (400 \<le> st \<and> st < 500)
                 \<longrightarrow> r = Inl (HttpError (''Unknown HTTP Error '' @ str_int st) (Some st) e_body)))
   \<and> (\<forall>v ctx rq code msg hs b v' vis.
         srv v ctx rq = (Reply code msg hs b, v') \<and> (code < 200 \<or> 600 \<le> code)
         \<longrightarrow> urlopen srv (v, vis) ctx rq
               = (Raised_HTTPError (Some code) (http_error_str code msg) b, (v', vis)))"
proof (rule conjI)
  from unknown_status_of_a_call [OF opener_contract, of srv url data hdrs "method" n ssl s]
  show "\<exists>r s'. make_request (urlopen srv) url data hdrs method n ssl s = Some (r, s')
           \<and> (\<forall>response. r = Inr response \<longrightarrow>
                 200 \<le> status_code response \<and> status_code response \<le> 299
                 \<and> (\<exists>hs. last (new_events s s')
                        = Dispatch (make_ssl_context ssl) (first_request url data hdrs method s)
                            (Returned (status_code response) hs (body response))
                      \<and> headers response = dict_of_items hs))
           \<and> (\<forall>ctx rq st e_str e_body.
                 Dispatch ctx rq (Raised_HTTPError (Some st) e_str e_body) \<in> set (new_events s s')
                 \<and> \<not> retryable st \<and> \<not> (400 \<le> st \<and> st < 500)
                 \<longrightarrow> r = Inl (HttpError (''Unknown HTTP Error '' @ str_int st) (Some st) e_body))"
    by (elim exE conjE, intro exI conjI) assumption+
next
  show "\<forall>v ctx rq code msg hs b v' vis.
         srv v ctx rq = (Reply code msg hs b, v') \<and> (code < 200 \<or> 600 \<le> code)
         \<longrightarrow> urlopen srv (v, vis) ctx rq
               = (Raised_HTTPError (Some code) (http_error_str code msg) b, (v', vis))"
    by (intro allI impI, rule urlopen_error) auto
qed

theorem returned_response_has_success_status_witness:
  "(\<exists>response s'. make_request
         (urlopen (site (\<lambda>k rq. Reply 200 ''OK'' [(''Server'', ''nginx'')] ''ok'')))
         ''https://h/pulls'' None None None 3 False unvisited
       = Some (Inr response, s')
     \<and> 200 \<le> status_code response \<and> status_code response \<le> 299)
   \<and> \<not> retryable 600
   \<and> urlopen (site (\<lambda>k rq. Reply 600 ''Strange'' [] ''what'')) ([], []) Default_context
        (first_request ''https://h/pulls'' None None None unvisited)
      = (Raised_HTTPError (Some 600) ''HTTP Error 600: Strange'' ''what'',
         ([(Default_context, first_request ''https://h/pulls'' None None None unvisited)], []))
   \<and> (\<exists>s'. make_request (urlopen (site (\<lambda>k rq. Reply 600 ''Strange'' [] ''what'')))
              ''https://h/pulls'' None None None 3 False unvisited
            = Some (Inl (HttpError ''Unknown HTTP Error 600'' (Some 600) ''what''), s'))"
proof -
  let ?ok = "site (\<lambda>k rq. Reply 200 ''OK'' [(''Server'', ''nginx'')] ''ok'')"
  let ?odd = "site (\<lambda>k rq. Reply 600 ''Strange'' [] ''what'')"
  let ?rq = "first_request ''https://h/pulls'' None None None unvisited"
  let ?run1 = "make_request (urlopen ?ok) ''https://h/pulls'' None None None 3 False unvisited"
  let ?run2 = "make_request (urlopen ?odd) ''https://h/pulls'' None None None 3 False unvisited"
  note inst1 = returned_response_has_success_status [of ?ok "''https://h/pulls''" None None None 3
      False unvisited]
  note inst2 = returned_response_has_success_status [of ?odd "''https://h/pulls''" None None None 3
      False unvisited]
  have nr: "\<not> retryable 600"
    by (simp add: retryable_def)
  from inst1 [THEN conjunct1]
  obtain r1 s1 where run1: "?run1 = Some (r1, s1)"
    and ok: "\<And>response. r1 = Inr response
        \<Longrightarrow> 200 \<le> status_code response \<and> status_code response \<le> 299"
    by blast
  have "result_of ?run1 = Some (Inr \<lparr>status_code = 200, headers = [(''Server'', ''nginx'')],
      body = ''ok''\<rparr>)"
    by code_simp
  with run1 have r1: "r1 = Inr \<lparr>status_code = 200, headers = [(''Server'', ''nginx'')],
      body = ''ok''\<rparr>"
    by (simp add: result_of_def)
  from ok [OF r1] run1 r1
  have first: "\<exists>response s'. ?run1 = Some (Inr response, s')
      \<and> 200 \<le> status_code response \<and> status_code response \<le> 299"
    by blast
  have rp: "?odd [] Default_context ?rq = (Reply 600 ''Strange'' [] ''what'', [(Default_context, ?rq)])"
    by (simp add: site_def)
  then have "urlopen ?odd ([], []) Default_context ?rq
          = (Raised_HTTPError (Some 600) (http_error_str 600 ''Strange'') ''what'',
             ([(Default_context, ?rq)], []))"
    by (intro inst2 [THEN conjunct2, rule_format, of "[]" Default_context ?rq 600 "''Strange''"
          "[]" "''what''" "[(Default_context, ?rq)]" "[]"]) simp
  then have step: "urlopen ?odd ([], []) Default_context ?rq
          = (Raised_HTTPError (Some 600) ''HTTP Error 600: Strange'' ''what'',
             ([(Default_context, ?rq)], []))"
    by (simp add: http_error_str_def str_int_600)
  from inst2 [THEN conjunct1]
  obtain r2 s2 where run2: "?run2 = Some (r2, s2)"
    and unknown: "\<And>ctx rq st e_str e_body.
        Dispatch ctx rq (Raised_HTTPError (Some st) e_str e_body) \<in> set (new_events unvisited s2)
        \<Longrightarrow> \<not> retryable st \<Longrightarrow> \<not> (400 \<le> st \<and> st < 500)
        \<Longrightarrow> r2 = Inl (HttpError (''Unknown HTTP Error '' @ str_int st) (Some st) e_body)"
    by blast
  have "events_of ?run2 = Some [Dispatch (make_ssl_context False) ?rq
      (Raised_HTTPError (Some 600) ''HTTP Error 600: Strange'' ''what'')]"
    by code_simp
  with run2 have "trace s2 = [Dispatch (make_ssl_context False) ?rq
      (Raised_HTTPError (Some 600) ''HTTP Error 600: Strange'' ''what'')]"
    by (rule trace_of_run)
  then have "Dispatch (make_ssl_context False) ?rq
      (Raised_HTTPError (Some 600) ''HTTP Error 600: Strange'' ''what'')
      \<in> set (new_events unvisited s2)"
    by (simp add: unvisited_def)
  then have "r2 = Inl (HttpError (''Unknown HTTP Error '' @ str_int 600) (Some 600) ''what'')"
    using nr by (rule unknown) simp
  with run2 have "?run2 = Some (Inl (HttpError ''Unknown HTTP Error 600'' (Some 600) ''what''), s2)"
    by (simp add: str_int_600)
  then have second: "\<exists>s'. ?run2 = Some (Inl (HttpError ''Unknown HTTP Error 600'' (Some 600) ''what''), s')"
    by (rule exI)
  from first nr step second show ?thesis
    by (intro conjI)
qed

lemma upper_char_C: "upper_char c = CHR ''C'' \<Longrightarrow> lower_char c = CHR ''c''"
  by (auto simp: upper_char_def lower_char_def split: if_splits)

lemma capitalize_content_type:
  assumes "capitalize k = ''Content-type''"
  shows "map lower_char k = ''content-type''"
proof (cases k)
  case Nil
  with assms show ?thesis
    by simp
next
  case (Cons c cs)
  with assms have "upper_char c = CHR ''C''" and "map lower_char cs = ''ontent-type''"
    by simp_all
  with Cons upper_char_C [of c] show ?thesis
    by simp
qed

lemma redirect_request_content_type: "content_type (redirect_request rq newurl) = None"
proof -
  let ?kept = "filter (\<lambda>(k, v). map lower_char k \<notin> set [''content-length'', ''content-type''])
                 (req_headers rq)"
  have "''Content-type'' \<notin> fst ` set (rev (map (\<lambda>(k, v). (capitalize k, v)) ?kept))"
    using capitalize_content_type by (auto simp del: capitalize.simps)
  then have "map_of (rev (map (\<lambda>(k, v). (capitalize k, v)) ?kept)) ''Content-type'' = None"
    by (rule map_of_eq_None_iff [THEN iffD2])
  then have "dict_get (foldl (\<lambda>hs (k, v). add_header hs k v) [] ?kept) ''Content-type'' = None"
    by (simp add: stored_headers) (simp add: dict_get_def)
  then show ?thesis
    by (simp add: redirect_request_def Request_def content_type_def)
qed

lemma redirect_request_fields:
  "req_url (redirect_request rq newurl) = newurl"
  "req_data (redirect_request rq newurl) = None"
  "req_method (redirect_request rq newurl) = None"
  by (simp_all add: redirect_request_def Request_def)

lemma exchanges_of_a_call:
  assumes "returns_2xx_only tr"
  shows "\<exists>r s'. make_request tr url data hdrs method n ssl s = Some (r, s')
           \<and> set (sent (new_events s s'))
               = {(make_ssl_context ssl, first_request url data hdrs method s)}
           \<and> attempts (new_events s s') \<le> nat n + 1
           \<and> heap s' = heap (snd (init_headers hdrs s))
           \<and> next_ref s' = next_ref (snd (init_headers hdrs s))"
proof -
  let ?ctx = "make_ssl_context ssl" and ?rq = "first_request url data hdrs method s"
  from opener_call [OF assms, of url data hdrs "method" n ssl s] obtain s' outs out where
    run: "make_request tr url data hdrs method n ssl s = Some (exit_value url out, s')"
    and ev: "new_events s s' = backoff_trace ?ctx ?rq 1 outs @ [Dispatch ?ctx ?rq out]"
    and b: "outs = [] \<or> int (length outs) \<le> n"
    and h: "heap s' = heap (snd (init_headers hdrs s))"
    and nr: "next_ref s' = next_ref (snd (init_headers hdrs s))"
    by blast
  from b have "attempts (new_events s s') \<le> nat n + 1"
    unfolding ev by (rule attempts_within_budget)
  moreover have "set (sent (new_events s s')) = {(?ctx, ?rq)}"
    unfolding ev by (rule set_sent_backoff_run)
  ultimately show ?thesis
    using run h nr by blast
qed

text \<open>
  C9, as the claim states it, fails: no server keeps a call from returning. Against a
  server that answers every request with a redirect, to the same url or to a new url
  every time, the opener gives up inside \<open>opener.open\<close>, after 4 redirects to one url or
  10 redirects in all, and raises an \<open>HTTPError\<close> with the status of the redirect; the call
  then ends after one exchange with \<open>HttpError\<close>, message \<open>Unknown HTTP Error 302\<close>.
\<close>

theorem no_server_keeps_the_call_from_returning:
  "\<not> (\<exists>(srv :: 'v server) url data hdrs method n ssl s.
         make_request (urlopen srv) url data hdrs method n ssl s = None)
   \<and> result_of (make_request
        (urlopen (site (\<lambda>k rq. Reply 302 ''Found'' [(''Location'', ''https://h/pulls'')] '''')))
        ''https://h/pulls'' None None None 3 False unvisited)
     = Some (Inl (HttpError ''Unknown HTTP Error 302'' (Some 302) ''''))
   \<and> map_option attempts (events_of (make_request
        (urlopen (site (\<lambda>k rq. Reply 302 ''Found'' [(''Location'', ''https://h/pulls'')] '''')))
        ''https://h/pulls'' None None None 3 False unvisited))
     = Some 1
   \<and> map_option (\<lambda>w. length (fst w)) (world_of (make_request
        (urlopen (site (\<lambda>k rq. Reply 302 ''Found'' [(''Location'', ''https://h/pulls'')] '''')))
        ''https://h/pulls'' None None None 3 False unvisited))
     = Some 5
   \<and> result_of (make_request
        (urlopen (site (\<lambda>k rq. Reply 302 ''Found'' [(''Location'', ''https://h/'' @ str_nat k)] '''')))
        ''https://h/pulls'' None None None 3 False unvisited)
     = Some (Inl (HttpError ''Unknown HTTP Error 302'' (Some 302) ''''))
   \<and> map_option (\<lambda>w. length (fst w)) (world_of (make_request
        (urlopen (site (\<lambda>k rq. Reply 302 ''Found'' [(''Location'', ''https://h/'' @ str_nat k)] '''')))
        ''https://h/pulls'' None None None 3 False unvisited))
     = Some 11"
proof (intro conjI notI)
  assume "\<exists>(srv :: 'v server) url data hdrs method n ssl s.
         make_request (urlopen srv) url data hdrs method n ssl s = None"
  then obtain srv :: "'v server" and url data hdrs "method" n ssl s where
    "make_request (urlopen srv) url data hdrs method n ssl s = None"
    by blast
  with opener_call [OF opener_contract, of srv url data hdrs "method" n ssl s] show False
    by auto
qed code_simp+

text \<open>
  C9, amended. Every call returns or raises, after at most \<open>num_retries + 1\<close> exchanges
  (one when the budget is negative): the opener hands back 2xx responses only, so lines
  146 to 151 never make the recursive call, and what is left is the retry loop, which the
  budget bounds. Redirects are followed inside \<open>opener.open\<close>, within one exchange, and
  there the opener counts them.
\<close>

theorem every_call_through_the_opener_returns:
  "\<exists>r s'. make_request (urlopen srv) url data hdrs method n ssl s = Some (r, s')
           \<and> attempts (new_events s s') \<le> nat n + 1
           \<and> location_of (fst (hop (urlopen srv) url data hdrs method n ssl s)) = None"
proof -
  let ?ctx = "make_ssl_context ssl" and ?rq = "first_request url data hdrs method s"
  from exchanges_of_a_call [OF opener_contract, of srv url data hdrs "method" n ssl s]
  obtain r s' where
    run: "make_request (urlopen srv) url data hdrs method n ssl s = Some (r, s')"
    and b: "attempts (new_events s s') \<le> nat n + 1"
    by blast
  from hop_run [of "urlopen srv" ssl url data hdrs "method" s n] obtain m where
    "fst (hop (urlopen srv) url data hdrs method n ssl s) =
       exit_value url (outcome_at (urlopen srv) ?ctx ?rq (world s) m)"
    by auto
  with exit_value_of_opener(1) [OF opener_contract, of url srv ?ctx ?rq "world s" m]
  have "location_of (fst (hop (urlopen srv) url data hdrs method n ssl s)) = None"
    by simp
  with run b show ?thesis
    by blast
qed

theorem every_call_through_the_opener_returns_witness:
  "\<exists>r s'. make_request
        (urlopen (site (\<lambda>k rq. if k < 2 then Reply 503 ''Service Unavailable'' [] ''''
                               else Reply 200 ''OK'' [] ''ok'')))
        ''https://h/pulls'' None None None 3 False unvisited = Some (r, s')
      \<and> attempts (new_events unvisited s') \<le> 4"
  using every_call_through_the_opener_returns [of
      "site (\<lambda>k rq. if k < 2 then Reply 503 ''Service Unavailable'' [] ''''
                     else Reply 200 ''OK'' [] ''ok'')"
      "''https://h/pulls''" None None None 3 False unvisited]
  by auto

end
